theory Spec2Isabelle
  imports Complex_Main
begin

section \<open>Numbers\<close>

text \<open>
  The program computes with Python and numpy floats. Finite values are modelled as exact
  reals (no rounding error, no overflow, no signed zero); the special values that numpy
  produces on a division by zero, and pandas' missing cells, are kept: \<open>NaN\<close> and the
  two infinities, with the IEEE-754 rules for propagating them.
\<close>

datatype fval = Fin real | PInf | NInf | NaN

instantiation fval :: "{plus,minus,uminus,times,inverse,abs,ord}"
begin

fun plus_fval :: "fval \<Rightarrow> fval \<Rightarrow> fval" where
  "Fin a + Fin b = Fin (a + b)"
| "NaN + _ = NaN"
| "_ + NaN = NaN"
| "PInf + NInf = NaN"
| "NInf + PInf = NaN"
| "PInf + _ = PInf"
| "_ + PInf = PInf"
| "NInf + _ = NInf"
| "_ + NInf = NInf"

fun uminus_fval :: "fval \<Rightarrow> fval" where
  "- Fin a = Fin (- a)"
| "- PInf = NInf"
| "- NInf = PInf"
| "- NaN = NaN"

definition minus_fval :: "fval \<Rightarrow> fval \<Rightarrow> fval" where
  "a - b = a + (- b)" for a b :: fval

fun times_fval :: "fval \<Rightarrow> fval \<Rightarrow> fval" where
  "Fin a * Fin b = Fin (a * b)"
| "NaN * _ = NaN"
| "_ * NaN = NaN"
| "PInf * Fin b = (if b = 0 then NaN else if 0 < b then PInf else NInf)"
| "NInf * Fin b = (if b = 0 then NaN else if 0 < b then NInf else PInf)"
| "Fin a * PInf = (if a = 0 then NaN else if 0 < a then PInf else NInf)"
| "Fin a * NInf = (if a = 0 then NaN else if 0 < a then NInf else PInf)"
| "PInf * PInf = PInf"
| "PInf * NInf = NInf"
| "NInf * PInf = NInf"
| "NInf * NInf = PInf"

text \<open>numpy's float division never raises: a zero divisor gives \<open>nan\<close> or an infinity.\<close>

fun divide_fval :: "fval \<Rightarrow> fval \<Rightarrow> fval" where
  "divide_fval (Fin a) (Fin b) =
     (if b = 0 then (if a = 0 then NaN else if 0 < a then PInf else NInf) else Fin (a / b))"
| "divide_fval NaN _ = NaN"
| "divide_fval _ NaN = NaN"
| "divide_fval (Fin a) PInf = Fin 0"
| "divide_fval (Fin a) NInf = Fin 0"
| "divide_fval PInf (Fin b) = (if 0 \<le> b then PInf else NInf)"
| "divide_fval NInf (Fin b) = (if 0 \<le> b then NInf else PInf)"
| "divide_fval PInf PInf = NaN"
| "divide_fval PInf NInf = NaN"
| "divide_fval NInf PInf = NaN"
| "divide_fval NInf NInf = NaN"

fun inverse_fval :: "fval \<Rightarrow> fval" where
  "inverse_fval (Fin a) = (if a = 0 then PInf else Fin (1 / a))"
| "inverse_fval PInf = Fin 0"
| "inverse_fval NInf = Fin 0"
| "inverse_fval NaN = NaN"

fun abs_fval :: "fval \<Rightarrow> fval" where
  "\<bar>Fin a\<bar> = Fin \<bar>a\<bar>"
| "\<bar>PInf\<bar> = PInf"
| "\<bar>NInf\<bar> = PInf"
| "\<bar>NaN\<bar> = NaN"

text \<open>Every comparison with \<open>NaN\<close> is false.\<close>

fun less_fval :: "fval \<Rightarrow> fval \<Rightarrow> bool" where
  "Fin a < Fin b = (a < b)"
| "NaN < _ = False"
| "_ < NaN = False"
| "_ < NInf = False"
| "NInf < _ = True"
| "PInf < _ = False"
| "_ < PInf = True"

definition less_eq_fval :: "fval \<Rightarrow> fval \<Rightarrow> bool" where
  "a \<le> b = (a < b \<or> (a = b \<and> a \<noteq> NaN))" for a b :: fval

instance ..

end

fun is_finite :: "fval \<Rightarrow> bool" where
  "is_finite (Fin _) = True"
| "is_finite _ = False"

text \<open>\<open>Series.sum()\<close> and \<open>Series.mean()\<close> of pandas skip the \<open>NaN\<close> cells
  (\<open>skipna=True\<close>); the sum of no cell is 0 and the mean of no cell is \<open>NaN\<close>.\<close>

definition skipna :: "fval list \<Rightarrow> fval list" where
  "skipna xs = filter (\<lambda>x. x \<noteq> NaN) xs"

definition series_sum :: "fval list \<Rightarrow> fval" where
  "series_sum xs = foldl (+) (Fin 0) (skipna xs)"

definition series_mean :: "fval list \<Rightarrow> fval" where
  "series_mean xs =
     (if skipna xs = [] then NaN else series_sum xs / Fin (real (length (skipna xs))))"

text \<open>Python's \<open>round(x)\<close> and numpy's \<open>round(x, d)\<close> round halves to the even
  neighbour.\<close>

definition py_round :: "real \<Rightarrow> int" where
  "py_round x =
     (let f = \<lfloor>x\<rfloor>; d = x - real_of_int f
      in if d < 1 / 2 then f else if 1 / 2 < d then f + 1 else if even f then f else f + 1)"

definition round_to :: "nat \<Rightarrow> real \<Rightarrow> real" where
  "round_to d x = real_of_int (py_round (x * 10 ^ d)) / 10 ^ d"

fun fround_to :: "nat \<Rightarrow> fval \<Rightarrow> fval" where
  "fround_to d (Fin a) = Fin (round_to d a)"
| "fround_to d v = v"

section \<open>Inputs\<close>

datatype error = AttributeError | KeyError | ValueError | TypeError | IndexError
  | LinAlgError

text \<open>
  The value of a unit variable that the code reads as a pandas series is an hourly
  series, or a bare number once a sensitivity run has assigned one to it. The study period
  is read by \<open>range\<close>, which accepts a Python int and rejects a float.
\<close>

datatype series = Hourly "real list" | Scalar real

datatype pynum = PyInt int | PyFloat real

text \<open>The dataclass \<open>Inputs\<close>: each field holds the \<open>value\<close> of its unit variable.
  The names and units of the unit variables are in \<open>Inputs_units\<close> below.\<close>

record Inputs =
  load :: series
  ref_yield :: series
  ref_capacity :: real
  postproc_losses :: real
  ref_specific_yield :: series
  study_period :: pynum
  discount_rate :: real
  pv_capacity :: real
  pv_degradation :: real
  currency :: "string + real"
  devex :: real
  capex :: real
  opex :: real
  opex_increase :: real
  loan :: real
  loan_period :: real
  loan_rate :: real
  import_tariff :: real
  export_tariff :: real
  import_increase :: real
  export_increase :: real

text \<open>The defaults of the dataclass, around a load and a specific-yield series.\<close>

definition default_Inputs :: "real list \<Rightarrow> real list \<Rightarrow> Inputs" where
  "default_Inputs ld sy =
     \<lparr>load = Hourly ld, ref_yield = Hourly [], ref_capacity = 10000,
      postproc_losses = 0.03, ref_specific_yield = Hourly sy, study_period = PyInt 25,
      discount_rate = 0.04, pv_capacity = 1000, pv_degradation = 0.005,
      currency = Inl ''USD'', devex = 0, capex = 700, opex = 15, opex_increase = 0,
      loan = 0, loan_period = 0, loan_rate = 0, import_tariff = 0.1, export_tariff = 0.05,
      import_increase = 0, export_increase = 0\<rparr>"

section \<open>Scenario: the annual energy balance\<close>

text \<open>One row of the hourly frame of a year.\<close>

record hourly_row =
  enLoad :: real
  enPV_total :: real
  enPV_self_cons :: real
  enGrid_import :: real
  enGrid_export :: real

definition capacity_dc_degr :: "'a Inputs_scheme \<Rightarrow> int \<Rightarrow> real" where
  "capacity_dc_degr inp year =
     pv_capacity inp * (1 - (pv_degradation inp * (real_of_int year - 0.5)))"

text \<open>\<open>data['enPV total'] = ref_specific_yield * capacity_dc_degr\<close>: the two series
  share the hourly index of the load (the inputs are built on it), so the column is
  aligned by position; a bare number is broadcast to every row.\<close>

definition enPV_total_column :: "series \<Rightarrow> real \<Rightarrow> nat \<Rightarrow> real list" where
  "enPV_total_column sy cap n =
     (case sy of Hourly ys \<Rightarrow> map (\<lambda>y. y * cap) ys | Scalar v \<Rightarrow> replicate n (v * cap))"

text \<open>The masked column assignments, read row by row: the mask \<open>energy_shortfall\<close> and
  its complement each assign every column once.\<close>

definition balance_row :: "real \<Rightarrow> real \<Rightarrow> hourly_row" where
  "balance_row ld pv =
     (let energy_shortfall = pv < ld
      in \<lparr>enLoad = ld, enPV_total = pv,
          enPV_self_cons = (if energy_shortfall then pv else ld),
          enGrid_import = (if energy_shortfall then ld - pv else 0),
          enGrid_export = (if energy_shortfall then 0 else pv - ld)\<rparr>)"

definition year_energy_balance :: "'a Inputs_scheme \<Rightarrow> real list \<Rightarrow> int \<Rightarrow> hourly_row list" where
  "year_energy_balance inp ld year =
     map (\<lambda>(l, pv). balance_row l pv)
       (zip ld (enPV_total_column (ref_specific_yield inp) (capacity_dc_degr inp year)
          (length ld)))"

text \<open>The dictionary year \<open>\<mapsto>\<close> frame, in insertion order. \<open>range\<close> raises on a float
  study period; the frame constructor raises on a load that is not a series, in the first
  iteration.\<close>

definition calc_annual_energy_balance ::
    "'a Inputs_scheme \<Rightarrow> error + (int \<times> hourly_row list) list" where
  "calc_annual_energy_balance inp =
     (case study_period inp of
        PyFloat _ \<Rightarrow> Inl TypeError
      | PyInt n \<Rightarrow>
          (case load inp of
             Scalar _ \<Rightarrow> (if n < 1 then Inr [] else Inl ValueError)
           | Hourly ld \<Rightarrow> Inr (map (\<lambda>year. (year, year_energy_balance inp ld year)) [1..n])))"

section \<open>Frames\<close>

text \<open>The column labels of the yearly frames and of the summary row.\<close>

datatype column =
    EnLoad | EnPV_total | EnPV_self_cons | EnGrid_import | EnGrid_export
  | PV_self_cons_pct | PV_usage_pct
  | Import_tariff | Export_tariff | Combined_tariff | Import_costs | Export_sales
  | EnPV_revenues | Opex | Loan_payment | Cashflow | Cash_balance
  | Load | Energy_pv_total | Energy_pv_self_cons | Energy_grid_import | Energy_grid_export
  | Pv_self_cons | Pv_utilisation | Capex | Lcoe | Blcoe | Npv | Irr | Pay_back_period

text \<open>A pandas frame: its rows in index order, each a label and its cells; a cell never
  assigned is \<open>NaN\<close>.\<close>

type_synonym row = "column \<Rightarrow> fval"
type_synonym 'i frame = "('i \<times> row) list"

definition empty_row :: row where
  "empty_row = (\<lambda>_. NaN)"

definition index :: "'i frame \<Rightarrow> 'i list" where
  "index df = map fst df"

text \<open>\<open>df.loc[i, c]\<close>, read. Every label the code reads is in the index.\<close>

definition loc :: "'i frame \<Rightarrow> 'i \<Rightarrow> column \<Rightarrow> fval" where
  "loc df i c = (case map_of df i of Some r \<Rightarrow> r c | None \<Rightarrow> NaN)"

text \<open>\<open>df.loc[i, c] = v\<close>: the cell is set, in a new last row when the label is new.\<close>

definition loc_set :: "'i frame \<Rightarrow> 'i \<Rightarrow> column \<Rightarrow> fval \<Rightarrow> 'i frame" where
  "loc_set df i c v =
     (if i \<in> set (index df)
      then map (\<lambda>(k, r). if k = i then (k, r(c := v)) else (k, r)) df
      else df @ [(i, empty_row(c := v))])"

definition column_values :: "'i frame \<Rightarrow> column \<Rightarrow> fval list" where
  "column_values df c = map (\<lambda>(k, r). r c) df"

definition select_columns :: "column list \<Rightarrow> 'i frame \<Rightarrow> 'i frame" where
  "select_columns cs df = map (\<lambda>(k, r). (k, (\<lambda>c. if c \<in> set cs then r c else NaN))) df"

definition sort_index :: "int frame \<Rightarrow> int frame" where
  "sort_index df = sort_key fst df"

section \<open>Scenario: the yearly summary of the energy balance\<close>

definition energy_balance_summary_year ::
    "int frame \<Rightarrow> int \<times> hourly_row list \<Rightarrow> int frame" where
  "energy_balance_summary_year df0 yd =
     (let year = fst yd; data = snd yd;
          df = loc_set df0 year EnLoad (Fin (sum_list (map enLoad data) / 1000));
          df = loc_set df year EnPV_total (Fin (sum_list (map enPV_total data) / 1000));
          df = loc_set df year EnPV_self_cons (Fin (sum_list (map enPV_self_cons data) / 1000));
          df = loc_set df year EnGrid_import (Fin (sum_list (map enGrid_import data) / 1000));
          df = loc_set df year EnGrid_export (Fin (sum_list (map enGrid_export data) / 1000));
          df = loc_set df year PV_self_cons_pct
                 (loc df year EnPV_self_cons / loc df year EnLoad);
          df = loc_set df year PV_usage_pct
                 (loc df year EnPV_self_cons / loc df year EnPV_total)
      in df)"

text \<open>The attribute \<open>energy_balance_summary\<close> is assigned in the loop body only: with no
  year to loop over, the \<open>return\<close> reads an attribute that does not exist.\<close>

definition calc_energy_balance_summary ::
    "(int \<times> hourly_row list) list \<Rightarrow> error + int frame" where
  "calc_energy_balance_summary energy_balance =
     (if energy_balance = [] then Inl AttributeError
      else Inr (foldl energy_balance_summary_year [] energy_balance))"

section \<open>Scenario: the cashflow\<close>

text \<open>A local variable of the source that bears the name of a field is written with a
  prime.\<close>

text \<open>\<open>numpy.power\<close> on floats: an integral exponent is a repeated product, a
  negative base has no real power otherwise.\<close>

definition py_pow :: "real \<Rightarrow> real \<Rightarrow> fval" where
  "py_pow x y =
     (if y = real_of_int \<lfloor>y\<rfloor>
      then (if 0 \<le> y then Fin (x ^ nat \<lfloor>y\<rfloor>)
            else if x = 0 then PInf else Fin (1 / x ^ nat (- \<lfloor>y\<rfloor>)))
      else if 0 < x then Fin (x powr y)
      else if x = 0 then (if 0 < y then Fin 0 else PInf)
      else NaN)"

text \<open>\<open>numpy_financial.pmt(rate, nper, pv)\<close>, with its defaults \<open>fv = 0\<close> and
  \<open>when = 'end'\<close> (that is 0).\<close>

definition pmt :: "real \<Rightarrow> real \<Rightarrow> real \<Rightarrow> fval" where
  "pmt rate nper pv =
     (let temp = py_pow (1 + rate) nper;
          mask = (rate = 0);
          masked_rate = (if mask then 1 else rate);
          fact = (if mask then Fin nper
                  else Fin (1 + masked_rate * 0) * (temp - Fin 1) / Fin masked_rate)
      in - (Fin 0 + Fin pv * temp) / fact)"

definition total_investment :: "'a Inputs_scheme \<Rightarrow> real" where
  "total_investment inp = (capex inp + devex inp) * pv_capacity inp"

definition cashflow_year :: "'a Inputs_scheme \<Rightarrow> int frame \<Rightarrow> int \<Rightarrow> int frame \<Rightarrow> int frame" where
  "cashflow_year inp ebs_df year data0 =
     (let data = loc_set data0 year Import_tariff
                   (Fin (import_tariff inp * ((1 + import_increase inp) ^ nat year)));
          data = loc_set data year Export_tariff
                   (Fin (export_tariff inp * ((1 + export_increase inp) ^ nat year)));
          data = loc_set data year Combined_tariff
                   ((loc ebs_df year PV_usage_pct * loc data year Import_tariff)
                    + ((Fin 1 - loc ebs_df year PV_usage_pct) * loc data year Export_tariff));
          data = loc_set data year Import_costs
                   (loc data year Import_tariff * (loc data year EnGrid_import * Fin 1000));
          data = loc_set data year Export_sales
                   (loc data year Export_tariff * (loc data year EnGrid_export * Fin 1000));
          data = loc_set data year EnPV_revenues
                   (loc data year Combined_tariff * (loc data year EnPV_total * Fin 1000));
          opex_increase' = (1 + opex_increase inp) ^ nat year;
          data = loc_set data year Opex (Fin (opex inp * opex_increase' * pv_capacity inp));
          data = loc_set data year Loan_payment (Fin 0);
          data = (if real_of_int year \<le> loan_period inp
                  then (let loan_payment =
                              pmt (loan_rate inp) (loan_period inp)
                                (loan inp * total_investment inp)
                        in loc_set data year Loan_payment (- fround_to 2 loan_payment))
                  else data);
          data = loc_set data year Cashflow
                   (- loc data year Opex + loc data year EnPV_revenues
                    - loc data year Loan_payment)
      in data)"

definition cash_balance_year :: "int \<Rightarrow> int frame \<Rightarrow> int frame" where
  "cash_balance_year year data =
     (if year = 0 then loc_set data year Cash_balance (loc data year Cashflow)
      else loc_set data year Cash_balance
             (loc data (year - 1) Cash_balance + loc data year Cashflow))"

definition calc_cashflow :: "'a Inputs_scheme \<Rightarrow> int frame \<Rightarrow> int frame" where
  "calc_cashflow inp energy_balance_summary =
     (let ebs_df = energy_balance_summary;
          data = select_columns
                   [EnLoad, EnPV_total, EnPV_self_cons, EnGrid_import, EnGrid_export] ebs_df;
          data = fold (cashflow_year inp ebs_df) (index data) data;
          data = loc_set data 0 Cashflow (Fin (- total_investment inp * (1 - loan inp)));
          data = sort_index data;
          data = fold cash_balance_year (index data) data
      in sort_index data)"

section \<open>Scenario: the discounted cashflow\<close>

definition discounted_cashflow_year :: "'a Inputs_scheme \<Rightarrow> int \<Rightarrow> int frame \<Rightarrow> int frame" where
  "discounted_cashflow_year inp year data0 =
     (if 0 < year
      then (let discount_rate' = Fin ((1 + discount_rate inp) ^ nat year);
                data = loc_set data0 year EnLoad (loc data0 year EnLoad / discount_rate');
                data = loc_set data year EnPV_total (loc data year EnPV_total / discount_rate');
                data = loc_set data year EnPV_self_cons
                         (loc data year EnPV_self_cons / discount_rate');
                data = loc_set data year EnGrid_import
                         (loc data year EnGrid_import / discount_rate');
                data = loc_set data year EnGrid_export
                         (loc data year EnGrid_export / discount_rate');
                data = loc_set data year Import_costs
                         (loc data year Import_costs / discount_rate');
                data = loc_set data year Export_sales
                         (loc data year Export_sales / discount_rate');
                data = loc_set data year EnPV_revenues
                         (loc data year Combined_tariff * (loc data year EnPV_total * Fin 1000));
                data = loc_set data year Opex (loc data year Opex / discount_rate');
                data = loc_set data year Loan_payment (Fin 0);
                data = (if real_of_int year \<le> loan_period inp
                        then (let loan_payment =
                                    pmt (loan_rate inp) (loan_period inp)
                                      (loan inp * total_investment inp)
                              in loc_set data year Loan_payment
                                   (- fround_to 2 (loan_payment / discount_rate')))
                        else data);
                data = loc_set data year Cashflow
                         (- loc data year Opex + loc data year EnPV_revenues
                          - loc data year Loan_payment);
                data = loc_set data year Cash_balance
                         (loc data (year - 1) Cash_balance + loc data year Cashflow)
            in data)
      else data0)"

definition calc_discounted_cashflow :: "'a Inputs_scheme \<Rightarrow> int frame \<Rightarrow> int frame" where
  "calc_discounted_cashflow inp cashflow =
     (let data = cashflow;
          data = fold (discounted_cashflow_year inp) (index data) data
      in sort_index data)"

section \<open>Scenario: the summary\<close>

definition calc_LCOE :: "'a Inputs_scheme \<Rightarrow> int frame \<Rightarrow> fval \<times> fval" where
  "calc_LCOE inp discounted_cashflow =
     (let investment = (capex inp + devex inp) * pv_capacity inp;
          equity = Fin (investment * (1 - loan inp));
          loan_plus_interest = series_sum (column_values discounted_cashflow Loan_payment);
          opex' = series_sum (column_values discounted_cashflow Opex);
          grid_import = series_sum (column_values discounted_cashflow Import_costs);
          grid_export = series_sum (column_values discounted_cashflow Export_sales);
          energy = series_sum (column_values discounted_cashflow EnPV_self_cons) * Fin 1000;
          load' = series_sum (column_values discounted_cashflow EnLoad) * Fin 1000;
          LCOE = (equity + loan_plus_interest + opex' - grid_export) / energy;
          BLCOE = (equity + loan_plus_interest + opex' - grid_export + grid_import) / load'
      in (LCOE * Fin 1000, BLCOE * Fin 1000))"

text \<open>\<open>numpy.linspace(start, stop, num)\<close>, the end point included.\<close>

definition linspace :: "real \<Rightarrow> real \<Rightarrow> int \<Rightarrow> error + real list" where
  "linspace start stop num =
     (if num < 0 then Inl ValueError
      else Inr (let n = nat num; step = (stop - start) / real (n - 1)
                in map (\<lambda>i. if 1 < n \<and> i = n - 1 then stop
                             else if n = 1 then start
                             else start + real i * step) [0..<n]))"

text \<open>\<open>Series.reindex(labels)\<close>: the value of the label where the index has it (a
  float label finds the int label it equals), \<open>NaN\<close> elsewhere.\<close>

definition reindex :: "(int \<times> fval) list \<Rightarrow> real list \<Rightarrow> (real \<times> fval) list" where
  "reindex ser labels =
     map (\<lambda>l. (l, case find (\<lambda>(k, v). real_of_int k = l) ser of
                     Some (k, v) \<Rightarrow> v | None \<Rightarrow> NaN)) labels"

text \<open>\<open>Series.interpolate()\<close>, linear and forward: the index is ignored and the rows
  are taken as equally spaced. A run of \<open>NaN\<close> between two values lies on the line
  through them, a run after the last value repeats it, a run before the first value
  stays.\<close>

function interpolate_from :: "fval option \<Rightarrow> fval list \<Rightarrow> fval list" where
  "interpolate_from prev [] = []"
| "interpolate_from prev (x # xs) =
     (if x \<noteq> NaN then x # interpolate_from (Some x) xs
      else (let gap = takeWhile (\<lambda>v. v = NaN) (x # xs);
                rest = dropWhile (\<lambda>v. v = NaN) (x # xs)
            in (case prev of
                  None \<Rightarrow> map (\<lambda>_. NaN) gap
                | Some a \<Rightarrow>
                    (case rest of
                       [] \<Rightarrow> map (\<lambda>_. a) gap
                     | b # _ \<Rightarrow>
                         map (\<lambda>i. a + (b - a) * Fin (real i / real (length gap + 1)))
                           [1..<length gap + 1]))
               @ interpolate_from prev rest))"
  by pat_completeness auto
termination
  by (relation "measure (\<lambda>(prev, xs). length xs)")
     (auto simp: le_imp_less_Suc length_dropWhile_le)

definition interpolate :: "('l \<times> fval) list \<Rightarrow> ('l \<times> fval) list" where
  "interpolate ser = zip (map fst ser) (interpolate_from None (map snd ser))"

text \<open>\<open>Series.idxmin()\<close> and \<open>Series.idxmax()\<close>: the label of the first least
  (greatest) value, the \<open>NaN\<close> cells skipped; \<open>None\<close> when every cell is \<open>NaN\<close> or
  there is none.\<close>

definition idx_step ::
    "(fval \<Rightarrow> fval \<Rightarrow> bool) \<Rightarrow> ('l \<times> fval) option \<Rightarrow> 'l \<times> fval \<Rightarrow> ('l \<times> fval) option" where
  "idx_step better best lv =
     (if snd lv = NaN then best
      else (case best of
              None \<Rightarrow> Some lv
            | Some b \<Rightarrow> if better (snd lv) (snd b) then Some lv else Some b))"

definition idxmin :: "('l \<times> fval) list \<Rightarrow> 'l option" where
  "idxmin ser = map_option fst (foldl (idx_step (\<lambda>v b. v < b)) None ser)"

definition idxmax :: "('l \<times> fval) list \<Rightarrow> 'l option" where
  "idxmax ser = map_option fst (foldl (idx_step (\<lambda>v b. b < v)) None ser)"

text \<open>The payback period of \<open>_calc_summary\<close>: the cash balance on a grid of 100 labels
  per year, interpolated, and the label where its absolute value is least (\<open>NaN\<close> where
  pandas finds no value at all).\<close>

definition calc_pay_back_period :: "int \<Rightarrow> (int \<times> fval) list \<Rightarrow> error + fval" where
  "calc_pay_back_period n cash_balance =
     (case linspace 1 (real_of_int n) (n * 100) of
        Inl e \<Rightarrow> Inl e
      | Inr ys \<Rightarrow>
          (let new_ys = map (round_to 2) ys;
               regression = interpolate (reindex cash_balance new_ys)
           in Inr (case idxmin (map (\<lambda>(l, v). (l, \<bar>v\<bar>)) regression) of
                     None \<Rightarrow> NaN | Some l \<Rightarrow> Fin l)))"

text \<open>\<open>df[c] = v\<close>: the value in every row of the column.\<close>

definition assign_column :: "'i frame \<Rightarrow> column \<Rightarrow> fval \<Rightarrow> 'i frame" where
  "assign_column df c v = map (\<lambda>(k, r). (k, r(c := v))) df"

text \<open>\<open>numpy_financial.irr\<close> is a root finder outside the repository: the summary takes
  it as the parameter \<open>npf_irr\<close>, from the cashflow column to a rate or an error.\<close>

definition calc_summary ::
    "(fval list \<Rightarrow> error + fval) \<Rightarrow> 'a Inputs_scheme \<Rightarrow> int frame \<Rightarrow> int frame
       \<Rightarrow> error + real frame" where
  "calc_summary npf_irr inp cashflow discounted_cashflow =
     (let result = [(pv_capacity inp, empty_row)];
          result = assign_column result Load (series_sum (column_values cashflow EnLoad));
          result = assign_column result Energy_pv_total
                     (series_sum (column_values cashflow EnPV_total));
          result = assign_column result Energy_pv_self_cons
                     (series_sum (column_values cashflow EnPV_self_cons));
          result = assign_column result Energy_grid_import
                     (series_sum (column_values cashflow EnGrid_import));
          result = assign_column result Energy_grid_export
                     (series_sum (column_values cashflow EnGrid_export));
          result = assign_column result Pv_self_cons
                     ((series_sum (column_values cashflow EnPV_self_cons)
                       / series_sum (column_values cashflow EnLoad)) * Fin 100);
          result = assign_column result Pv_utilisation
                     ((series_sum (column_values cashflow EnPV_self_cons)
                       / series_sum (column_values cashflow EnPV_total)) * Fin 100);
          result = assign_column result Capex (Fin (capex inp * pv_capacity inp));
          result = assign_column result Opex (series_mean (column_values cashflow Opex));
          result = assign_column result Lcoe (fst (calc_LCOE inp discounted_cashflow));
          result = assign_column result Blcoe (snd (calc_LCOE inp discounted_cashflow));
          result = assign_column result Npv
                     (series_sum (column_values discounted_cashflow Cashflow))
      in (case npf_irr (column_values cashflow Cashflow) of
            Inl e \<Rightarrow> Inl e
          | Inr rate \<Rightarrow>
              (let result = assign_column result Irr (rate * Fin 100)
               in (case study_period inp of
                     PyFloat _ \<Rightarrow> Inl TypeError
                   | PyInt n \<Rightarrow>
                       (case calc_pay_back_period n
                               (map (\<lambda>(k, r). (k, r Cash_balance)) cashflow) of
                          Inl e \<Rightarrow> Inl e
                        | Inr p \<Rightarrow> Inr (assign_column result Pay_back_period p))))))"

section \<open>Scenario\<close>

record Scenario = Inputs +
  energy_balance :: "(int \<times> hourly_row list) list"
  energy_balance_summary :: "int frame"
  cashflow :: "int frame"
  discounted_cashflow :: "int frame"
  data :: "real frame"

text \<open>The constructor: the values of the inputs are copied into the new object, then the
  four tables and the summary are computed in turn.\<close>

definition Scenario_init ::
    "(fval list \<Rightarrow> error + fval) \<Rightarrow> 'a Inputs_scheme \<Rightarrow> error + Scenario" where
  "Scenario_init npf_irr inputs =
     (case calc_annual_energy_balance inputs of
        Inl e \<Rightarrow> Inl e
      | Inr eb \<Rightarrow>
          (case calc_energy_balance_summary eb of
             Inl e \<Rightarrow> Inl e
           | Inr ebs \<Rightarrow>
               (let cf = calc_cashflow inputs ebs;
                    dcf = calc_discounted_cashflow inputs cf
                in (case calc_summary npf_irr inputs cf dcf of
                      Inl e \<Rightarrow> Inl e
                    | Inr d \<Rightarrow>
                        Inr \<lparr>load = load inputs,
                             ref_yield = ref_yield inputs,
                             ref_capacity = ref_capacity inputs,
                             postproc_losses = postproc_losses inputs,
                             ref_specific_yield = ref_specific_yield inputs,
                             study_period = study_period inputs,
                             discount_rate = discount_rate inputs,
                             pv_capacity = pv_capacity inputs,
                             pv_degradation = pv_degradation inputs,
                             currency = currency inputs,
                             devex = devex inputs,
                             capex = capex inputs,
                             opex = opex inputs,
                             opex_increase = opex_increase inputs,
                             loan = loan inputs,
                             loan_period = loan_period inputs,
                             loan_rate = loan_rate inputs,
                             import_tariff = import_tariff inputs,
                             export_tariff = export_tariff inputs,
                             import_increase = import_increase inputs,
                             export_increase = export_increase inputs,
                             energy_balance = eb,
                             energy_balance_summary = ebs,
                             cashflow = cf,
                             discounted_cashflow = dcf,
                             data = d\<rparr>))))"

section \<open>PVSizing: the capacity sweep\<close>

text \<open>\<open>numpy.logspace(start, stop, num)\<close> is 10 to the power of \<open>linspace\<close>.\<close>

definition logspace :: "real \<Rightarrow> real \<Rightarrow> int \<Rightarrow> error + real list" where
  "logspace start stop num =
     (case linspace start stop num of
        Inl e \<Rightarrow> Inl e
      | Inr ys \<Rightarrow> Inr (map (\<lambda>y. 10 powr y) ys))"

text \<open>\<open>math.log10\<close> raises \<open>ValueError\<close> outside the positive numbers.\<close>

definition generate_pv_range :: "real \<Rightarrow> real \<Rightarrow> int \<Rightarrow> bool \<Rightarrow> error + real list" where
  "generate_pv_range var_min var_max steps log_scale =
     (if log_scale
      then (if var_max - var_min \<le> 0 then Inl ValueError
            else (let log_delta = log 10 (var_max - var_min)
                  in logspace 0 log_delta steps))
      else linspace var_min var_max steps)"

text \<open>A Python dictionary, in insertion order: a new key goes last, a known key keeps its
  place and takes the new value.\<close>

definition dict_set :: "('k \<times> 'v) list \<Rightarrow> 'k \<Rightarrow> 'v \<Rightarrow> ('k \<times> 'v) list" where
  "dict_set d k v =
     (if k \<in> fst ` set d then map (\<lambda>(k', v'). if k' = k then (k', v) else (k', v')) d
      else d @ [(k, v)])"

text \<open>The loop of \<open>run_pv_sensitivity\<close>. The inputs object is shared and written in
  place: the state is passed along and returned with the dictionary. A scenario that
  cannot be built ends the loop with its error.\<close>

fun run_pv_sensitivity_loop ::
    "(fval list \<Rightarrow> error + fval) \<Rightarrow> Inputs \<Rightarrow> real list \<Rightarrow> (int \<times> Scenario) list
       \<Rightarrow> error + Inputs \<times> (int \<times> Scenario) list" where
  "run_pv_sensitivity_loop npf_irr inputs [] all_scenario = Inr (inputs, all_scenario)"
| "run_pv_sensitivity_loop npf_irr inputs (capacity # rest) all_scenario =
     (let inputs = inputs\<lparr>pv_capacity := real_of_int (py_round capacity)\<rparr>
      in (case Scenario_init npf_irr inputs of
            Inl e \<Rightarrow> Inl e
          | Inr scenario \<Rightarrow>
              run_pv_sensitivity_loop npf_irr inputs rest
                (dict_set all_scenario (py_round capacity) scenario)))"

definition run_pv_sensitivity ::
    "(fval list \<Rightarrow> error + fval) \<Rightarrow> Inputs \<Rightarrow> real list
       \<Rightarrow> error + Inputs \<times> (int \<times> Scenario) list" where
  "run_pv_sensitivity npf_irr inputs pv_range =
     run_pv_sensitivity_loop npf_irr inputs pv_range []"

text \<open>\<open>pd.concat\<close> of the one-row summaries, in the order of the dictionary.\<close>

definition aggregate_data :: "(int \<times> Scenario) list \<Rightarrow> real frame" where
  "aggregate_data scenario = concat (map (\<lambda>(pv_capacity, scenarii). data scenarii) scenario)"

text \<open>The frame of no scenario has no column \<open>npv\<close>: reading it raises \<open>KeyError\<close>. So
  does the dictionary for the label pandas gives when every NPV is \<open>NaN\<close>.\<close>

definition highest_npv :: "real frame \<Rightarrow> (int \<times> Scenario) list \<Rightarrow> error + Scenario" where
  "highest_npv agg scenario =
     (if agg = [] then Inl KeyError
      else (case idxmax (map (\<lambda>(k, r). (k, r Npv)) agg) of
              None \<Rightarrow> Inl KeyError
            | Some highest_npv_scenario \<Rightarrow>
                (case find (\<lambda>(k, s). real_of_int k = highest_npv_scenario) scenario of
                   None \<Rightarrow> Inl KeyError
                 | Some (k, s) \<Rightarrow> Inr s)))"

record PVSizing =
  sizing_inputs :: Inputs
  sizing_log_scale :: bool
  sizing_pv_range :: "real list"
  sizing_scenario :: "(int \<times> Scenario) list"
  sizing_data :: "real frame"
  sizing_best_result :: Scenario

definition PVSizing_init ::
    "(fval list \<Rightarrow> error + fval) \<Rightarrow> Inputs \<Rightarrow> real \<Rightarrow> real \<Rightarrow> int \<Rightarrow> bool
       \<Rightarrow> error + PVSizing" where
  "PVSizing_init npf_irr inputs var_min var_max steps log_scale =
     (case generate_pv_range var_min var_max steps log_scale of
        Inl e \<Rightarrow> Inl e
      | Inr pv_range \<Rightarrow>
          (case run_pv_sensitivity npf_irr inputs pv_range of
             Inl e \<Rightarrow> Inl e
           | Inr (inputs', scenario) \<Rightarrow>
               (let agg = aggregate_data scenario
                in (case highest_npv agg scenario of
                      Inl e \<Rightarrow> Inl e
                    | Inr best \<Rightarrow>
                        Inr \<lparr>sizing_inputs = inputs', sizing_log_scale = log_scale,
                             sizing_pv_range = pv_range, sizing_scenario = scenario,
                             sizing_data = agg, sizing_best_result = best\<rparr>))))"

section \<open>Sensitivity: the sweep over a second variable\<close>

text \<open>\<open>dataclasses.fields(inputs)\<close>: the names of the fields, in the order of the class.\<close>

definition Inputs_fields :: "string list" where
  "Inputs_fields =
     [''load'', ''ref_yield'', ''ref_capacity'', ''postproc_losses'', ''ref_specific_yield'',
      ''study_period'', ''discount_rate'', ''pv_capacity'', ''pv_degradation'', ''currency'',
      ''devex'', ''capex'', ''opex'', ''opex_increase'', ''loan'', ''loan_period'',
      ''loan_rate'', ''import_tariff'', ''export_tariff'', ''import_increase'',
      ''export_increase'']"

text \<open>The fields whose unit variable has the unit \<open>'%'\<close>.\<close>

definition percent_unit :: "string \<Rightarrow> bool" where
  "percent_unit name \<longleftrightarrow>
     name \<in> set [''postproc_losses'', ''discount_rate'', ''pv_degradation'', ''opex_increase'',
                 ''loan'', ''loan_rate'', ''import_increase'', ''export_increase'']"

text \<open>\<open>getattr(inputs, name).value = v\<close>: the float replaces whatever the unit variable
  held.\<close>

definition set_value :: "string \<Rightarrow> real \<Rightarrow> 'a Inputs_scheme \<Rightarrow> 'a Inputs_scheme" where
  "set_value name v inputs =
     (if name = ''load'' then inputs\<lparr>load := Scalar v\<rparr>
      else if name = ''ref_yield'' then inputs\<lparr>ref_yield := Scalar v\<rparr>
      else if name = ''ref_capacity'' then inputs\<lparr>ref_capacity := v\<rparr>
      else if name = ''postproc_losses'' then inputs\<lparr>postproc_losses := v\<rparr>
      else if name = ''ref_specific_yield'' then inputs\<lparr>ref_specific_yield := Scalar v\<rparr>
      else if name = ''study_period'' then inputs\<lparr>study_period := PyFloat v\<rparr>
      else if name = ''discount_rate'' then inputs\<lparr>discount_rate := v\<rparr>
      else if name = ''pv_capacity'' then inputs\<lparr>pv_capacity := v\<rparr>
      else if name = ''pv_degradation'' then inputs\<lparr>pv_degradation := v\<rparr>
      else if name = ''currency'' then inputs\<lparr>currency := Inr v\<rparr>
      else if name = ''devex'' then inputs\<lparr>devex := v\<rparr>
      else if name = ''capex'' then inputs\<lparr>capex := v\<rparr>
      else if name = ''opex'' then inputs\<lparr>opex := v\<rparr>
      else if name = ''opex_increase'' then inputs\<lparr>opex_increase := v\<rparr>
      else if name = ''loan'' then inputs\<lparr>loan := v\<rparr>
      else if name = ''loan_period'' then inputs\<lparr>loan_period := v\<rparr>
      else if name = ''loan_rate'' then inputs\<lparr>loan_rate := v\<rparr>
      else if name = ''import_tariff'' then inputs\<lparr>import_tariff := v\<rparr>
      else if name = ''export_tariff'' then inputs\<lparr>export_tariff := v\<rparr>
      else if name = ''import_increase'' then inputs\<lparr>import_increase := v\<rparr>
      else if name = ''export_increase'' then inputs\<lparr>export_increase := v\<rparr>
      else inputs)"

record Sensitivity =
  sens_inputs :: Inputs
  variable :: string
  var_min :: real
  var_max :: real
  variable_range :: "real list"
  pv_var_min :: real
  pv_var_max :: real
  pv_steps :: int
  pv_log_scale :: bool

text \<open>The inner loop of \<open>run_sensitivity\<close>, over the values of the variable.\<close>

fun run_sensitivity_values ::
    "(fval list \<Rightarrow> error + fval) \<Rightarrow> Sensitivity \<Rightarrow> string \<Rightarrow> real list \<Rightarrow> Inputs
       \<Rightarrow> (real \<times> PVSizing) list \<Rightarrow> error + Inputs \<times> (real \<times> PVSizing) list" where
  "run_sensitivity_values npf_irr self name [] inputs results = Inr (inputs, results)"
| "run_sensitivity_values npf_irr self name (sensitivity_val # rest) inputs results =
     (let sensitivity_val = round_to 4 sensitivity_val;
          sensitivity_val = (if percent_unit name then sensitivity_val / 100
                             else sensitivity_val);
          inputs = set_value name sensitivity_val inputs
      in (case PVSizing_init npf_irr inputs (pv_var_min self) (pv_var_max self)
                 (pv_steps self) (pv_log_scale self) of
            Inl e \<Rightarrow> Inl e
          | Inr pv_sizing \<Rightarrow>
              run_sensitivity_values npf_irr self name rest (sizing_inputs pv_sizing)
                (dict_set results sensitivity_val pv_sizing)))"

text \<open>The outer loop, over the fields of the inputs: only a field whose name is the
  variable does anything.\<close>

fun run_sensitivity_fields ::
    "(fval list \<Rightarrow> error + fval) \<Rightarrow> Sensitivity \<Rightarrow> string list \<Rightarrow> Inputs
       \<Rightarrow> (real \<times> PVSizing) list \<Rightarrow> error + Inputs \<times> (real \<times> PVSizing) list" where
  "run_sensitivity_fields npf_irr self [] inputs results = Inr (inputs, results)"
| "run_sensitivity_fields npf_irr self (input_var # rest) inputs results =
     (if input_var = variable self
      then (case run_sensitivity_values npf_irr self input_var (variable_range self)
                   inputs results of
              Inl e \<Rightarrow> Inl e
            | Inr (inputs', results') \<Rightarrow>
                run_sensitivity_fields npf_irr self rest inputs' results')
      else run_sensitivity_fields npf_irr self rest inputs results)"

definition run_sensitivity ::
    "(fval list \<Rightarrow> error + fval) \<Rightarrow> Sensitivity
       \<Rightarrow> error + Inputs \<times> (real \<times> PVSizing) list" where
  "run_sensitivity npf_irr self =
     run_sensitivity_fields npf_irr self Inputs_fields (sens_inputs self) []"

text \<open>The constructor: the grid of the variable, then the sweep. It returns the object
  (its inputs as the sweep left them) and the dictionary \<open>pv_sizing\<close>.\<close>

definition Sensitivity_init ::
    "(fval list \<Rightarrow> error + fval) \<Rightarrow> Inputs \<Rightarrow> string \<Rightarrow> real \<Rightarrow> real \<Rightarrow> int
       \<Rightarrow> real \<Rightarrow> real \<Rightarrow> int \<Rightarrow> bool
       \<Rightarrow> error + Sensitivity \<times> (real \<times> PVSizing) list" where
  "Sensitivity_init npf_irr inputs var v_min v_max steps pv_min pv_max pv_stps pv_log =
     (case linspace v_min v_max steps of
        Inl e \<Rightarrow> Inl e
      | Inr rng \<Rightarrow>
          (let self = \<lparr>sens_inputs = inputs, variable = var, var_min = v_min,
                       var_max = v_max, variable_range = rng, pv_var_min = pv_min,
                       pv_var_max = pv_max, pv_steps = pv_stps, pv_log_scale = pv_log\<rparr>
           in (case run_sensitivity npf_irr self of
                 Inl e \<Rightarrow> Inl e
               | Inr (inputs', results) \<Rightarrow> Inr (self\<lparr>sens_inputs := inputs'\<rparr>, results))))"

section \<open>ScipyOptimiser: the objective wrapper\<close>

text \<open>
  The wrapper assigns an attribute of its scenario object, calls the method
  \<open>update_scenario\<close> of the object and reads its attribute \<open>summary\<close>. What the class
  of the object provides is a parameter: a method or attribute the class does not have is
  \<open>None\<close>, and Python raises \<open>AttributeError\<close> on its use.
\<close>

record 's scenario_class =
  setattr :: "string \<Rightarrow> real \<Rightarrow> 's \<Rightarrow> 's"
  update_scenario :: "('s \<Rightarrow> error + 's) option"
  summary :: "('s \<Rightarrow> string \<Rightarrow> error + real) option"

record 's ScipyOptimiser =
  scenario :: 's
  objective :: string
  optimisation :: string
  opt_variable :: string
  init_value :: real
  to_value :: real

text \<open>The first \<open>match\<close>: the attribute each variable name stands for.\<close>

definition variable_attribute :: "string \<Rightarrow> string option" where
  "variable_attribute v =
     (if v = ''Study Period'' then Some ''study_period''
      else if v = ''Discount Rate'' then Some ''discount_rate''
      else if v = ''PV Capacity'' then Some ''pv_capacity''
      else if v = ''Module Degradation'' then Some ''pv_degradation''
      else if v = ''CAPEX'' then Some ''capex''
      else if v = ''OPEX'' then Some ''opex''
      else if v = ''Import Tariff'' then Some ''import_tariff''
      else if v = ''Export Tariff'' then Some ''export_tariff''
      else None)"

text \<open>\<open>self.scenario.summary[self.objective]\<close>.\<close>

definition read_summary :: "'s scenario_class \<Rightarrow> 's \<Rightarrow> string \<Rightarrow> error + real" where
  "read_summary cls s obj =
     (case summary cls of None \<Rightarrow> Inl AttributeError | Some table \<Rightarrow> table s obj)"

definition optimising_function_wrapper ::
    "'s scenario_class \<Rightarrow> 's ScipyOptimiser \<Rightarrow> real list \<Rightarrow> error + 's \<times> real" where
  "optimising_function_wrapper cls self x =
     (case variable_attribute (opt_variable self) of
        None \<Rightarrow> Inl ValueError
      | Some attr \<Rightarrow>
          (case x of
             [] \<Rightarrow> Inl IndexError
           | x0 # _ \<Rightarrow>
               (let s = setattr cls attr x0 (scenario self)
                in (case update_scenario cls of
                      None \<Rightarrow> Inl AttributeError
                    | Some update \<Rightarrow>
                        (case update s of
                           Inl e \<Rightarrow> Inl e
                         | Inr s \<Rightarrow>
                             (if optimisation self = ''Min''
                              then map_sum id (\<lambda>m. (s, m)) (read_summary cls s (objective self))
                              else if optimisation self = ''Max''
                              then map_sum id (\<lambda>m. (s, m * - 1))
                                     (read_summary cls s (objective self))
                              else if optimisation self = ''Goal-Seek''
                              then map_sum id (\<lambda>m. (s, m - to_value self))
                                     (read_summary cls s (objective self))
                              else Inl ValueError))))))"

text \<open>The class \<open>Scenario\<close> of the repository: it has the fields of the inputs and its
  tables, and no \<open>update_scenario\<close> and no \<open>summary\<close>.\<close>

definition Scenario_class :: "Scenario scenario_class" where
  "Scenario_class = \<lparr>setattr = set_value, update_scenario = None, summary = None\<rparr>"

section \<open>Synthetic data of the examples\<close>

text \<open>A scenario that is nothing but a capacity and an NPV in its summary row, and the
  cash balance that starts at -1000 and grows by 100 a year over 25 years.\<close>

definition synthetic_Scenario :: "real \<Rightarrow> fval \<Rightarrow> Scenario" where
  "synthetic_Scenario capacity npv =
     Inputs.extend ((default_Inputs [] [])\<lparr>pv_capacity := capacity\<rparr>)
       (Scenario.fields [] [] [] [] [(capacity, empty_row(Npv := npv))])"

definition synthetic_balance :: "(int \<times> fval) list" where
  "synthetic_balance = map (\<lambda>y. (y, Fin (- 1000 + 100 * real_of_int y))) [0..25]"

section \<open>Auxiliary notions of the proofs\<close>

text \<open>A negative number or a missing value.\<close>

definition below_zero :: "fval \<Rightarrow> bool" where
  "below_zero v \<longleftrightarrow> v = NaN \<or> (\<exists>w < 0. v = Fin w)"

text \<open>Zero or a missing value.\<close>

definition zero_or_nan :: "fval \<Rightarrow> bool" where
  "zero_or_nan v \<longleftrightarrow> v = Fin 0 \<or> v = NaN"

text \<open>The grid of labels of the study period of 25 years, and the value that \<open>reindex\<close>
  finds at a label.\<close>

definition label_25 :: "nat \<Rightarrow> real" where
  "label_25 i = round_to 2 (if i = 2499 then 25 else 1 + real i * (24 / 2499))"

definition balance_at :: "real \<Rightarrow> fval" where
  "balance_at l =
     (case find (\<lambda>(k, v). real_of_int k = l) synthetic_balance of
        Some (k, v) \<Rightarrow> v | None \<Rightarrow> NaN)"

section \<open>Properties of the energy balance\<close>

lemma map_of_tabulate:
  "map_of (map (\<lambda>k. (k, f k)) ks) k = (if k \<in> set ks then Some (f k) else None)"
  by (induction ks) auto

lemma balance_row_conservation:
  "enPV_self_cons (balance_row l pv) = min l pv
   \<and> enGrid_import (balance_row l pv) = max (l - pv) 0
   \<and> enGrid_export (balance_row l pv) = max (pv - l) 0
   \<and> l = enPV_self_cons (balance_row l pv) + enGrid_import (balance_row l pv)
   \<and> pv = enPV_self_cons (balance_row l pv) + enGrid_export (balance_row l pv)"
  by (simp add: balance_row_def Let_def min_def max_def)

lemma year_energy_balance_nth:
  assumes "ref_specific_yield inp = Hourly sy" and "length sy = length ld"
    and "h < length ld"
  shows "length (year_energy_balance inp ld y) = length ld"
    and "year_energy_balance inp ld y ! h =
           balance_row (ld ! h) (sy ! h * capacity_dc_degr inp y)"
  using assms by (simp_all add: year_energy_balance_def enPV_total_column_def)

lemma energy_balance_lookup:
  assumes "study_period inp = PyInt n" and "load inp = Hourly ld"
    and "1 \<le> y" and "y \<le> n"
  shows "\<exists>eb. calc_annual_energy_balance inp = Inr eb
           \<and> map_of eb y = Some (year_energy_balance inp ld y)"
  using assms by (simp add: calc_annual_energy_balance_def map_of_tabulate)

text \<open>
  C1. Energy conservation. For a study period \<open>n \<ge> 1\<close>, every year \<open>y\<close> of \<open>1..n\<close>
  and every hour \<open>h\<close>, the frame of year \<open>y\<close> exists, has one row per hour of the load,
  and in its row \<open>h\<close> the self-consumption is the minimum of load and PV production, the
  grid import is \<open>max (load - pv) 0\<close>, the grid export is \<open>max (pv - load) 0\<close>, the load
  is self-consumption plus import and the PV production is self-consumption plus export.
\<close>

theorem energy_conservation:
  assumes "study_period inp = PyInt n" and "1 \<le> n"
    and "load inp = Hourly ld" and "ref_specific_yield inp = Hourly sy"
    and "length sy = length ld"
    and "1 \<le> y" and "y \<le> n" and "h < length ld"
  shows "\<exists>eb tbl. calc_annual_energy_balance inp = Inr eb \<and> map_of eb y = Some tbl
           \<and> length tbl = length ld
           \<and> enLoad (tbl ! h) = ld ! h
           \<and> enPV_self_cons (tbl ! h) = min (enLoad (tbl ! h)) (enPV_total (tbl ! h))
           \<and> enGrid_import (tbl ! h) = max (enLoad (tbl ! h) - enPV_total (tbl ! h)) 0
           \<and> enGrid_export (tbl ! h) = max (enPV_total (tbl ! h) - enLoad (tbl ! h)) 0
           \<and> enLoad (tbl ! h) = enPV_self_cons (tbl ! h) + enGrid_import (tbl ! h)
           \<and> enPV_total (tbl ! h) = enPV_self_cons (tbl ! h) + enGrid_export (tbl ! h)"
proof -
  obtain eb where eb: "calc_annual_energy_balance inp = Inr eb"
      "map_of eb y = Some (year_energy_balance inp ld y)"
    using energy_balance_lookup [OF assms(1,3,6,7)] by blast
  let ?tbl = "year_energy_balance inp ld y"
  let ?pv = "sy ! h * capacity_dc_degr inp y"
  have len: "length ?tbl = length ld"
    and row: "?tbl ! h = balance_row (ld ! h) ?pv"
    using year_energy_balance_nth [OF assms(4,5,8)] by simp_all
  have l: "enLoad (balance_row (ld ! h) ?pv) = ld ! h"
    and p: "enPV_total (balance_row (ld ! h) ?pv) = ?pv"
    by (simp_all add: balance_row_def Let_def)
  show ?thesis
    using eb len row l p balance_row_conservation [of "ld ! h" ?pv] by auto
qed

theorem energy_conservation_witness:
  "study_period (default_Inputs [3, 1] [1 / 1000, 2 / 1000]) = PyInt 25 \<and> (1::int) \<le> 25
   \<and> load (default_Inputs [3, 1] [1 / 1000, 2 / 1000]) = Hourly [3, 1]
   \<and> ref_specific_yield (default_Inputs [3, 1] [1 / 1000, 2 / 1000])
       = Hourly [1 / 1000, 2 / 1000]
   \<and> length [1 / 1000, 2 / 1000 :: real] = length [3, 1 :: real]
   \<and> (1::int) \<le> 2 \<and> (2::int) \<le> 25 \<and> (1::nat) < length [3, 1 :: real]
   \<and> (\<exists>eb tbl.
         calc_annual_energy_balance (default_Inputs [3, 1] [1 / 1000, 2 / 1000]) = Inr eb
         \<and> map_of eb 2 = Some tbl \<and> length tbl = length [3, 1 :: real]
         \<and> enLoad (tbl ! 1) = 1
         \<and> enPV_self_cons (tbl ! 1) = min (enLoad (tbl ! 1)) (enPV_total (tbl ! 1))
         \<and> enGrid_import (tbl ! 1) = max (enLoad (tbl ! 1) - enPV_total (tbl ! 1)) 0
         \<and> enGrid_export (tbl ! 1) = max (enPV_total (tbl ! 1) - enLoad (tbl ! 1)) 0
         \<and> enLoad (tbl ! 1) = enPV_self_cons (tbl ! 1) + enGrid_import (tbl ! 1)
         \<and> enPV_total (tbl ! 1) = enPV_self_cons (tbl ! 1) + enGrid_export (tbl ! 1))"
  using energy_conservation [of "default_Inputs [3, 1] [1 / 1000, 2 / 1000]" 25 "[3, 1]"
      "[1 / 1000, 2 / 1000]" 2 1]
  by (simp add: default_Inputs_def)

text \<open>
  C6. Degraded PV production. For every year \<open>y\<close> of \<open>1..n\<close> and every hour \<open>h\<close>,
  the PV production of the frame of year \<open>y\<close> is the specific yield of the hour times
  the installed capacity times \<open>1 - degradation * (y - 0.5)\<close>.
\<close>

theorem pv_total_degraded:
  assumes "study_period inp = PyInt n"
    and "load inp = Hourly ld" and "ref_specific_yield inp = Hourly sy"
    and "length sy = length ld"
    and "1 \<le> y" and "y \<le> n" and "h < length ld"
  shows "\<exists>eb tbl. calc_annual_energy_balance inp = Inr eb \<and> map_of eb y = Some tbl
           \<and> enPV_total (tbl ! h) =
               sy ! h * pv_capacity inp * (1 - pv_degradation inp * (real_of_int y - 0.5))"
proof -
  obtain eb where eb: "calc_annual_energy_balance inp = Inr eb"
      "map_of eb y = Some (year_energy_balance inp ld y)"
    using energy_balance_lookup [OF assms(1,2,5,6)] by blast
  have "year_energy_balance inp ld y ! h =
          balance_row (ld ! h) (sy ! h * capacity_dc_degr inp y)"
    using year_energy_balance_nth(2) [OF assms(3,4,7)] .
  then have "enPV_total (year_energy_balance inp ld y ! h) = sy ! h * capacity_dc_degr inp y"
    by (simp add: balance_row_def Let_def)
  then show ?thesis
    using eb by (simp add: capacity_dc_degr_def)
qed

theorem pv_total_degraded_witness:
  "study_period (default_Inputs [3, 1] [1 / 1000, 2 / 1000]) = PyInt 25
   \<and> load (default_Inputs [3, 1] [1 / 1000, 2 / 1000]) = Hourly [3, 1]
   \<and> ref_specific_yield (default_Inputs [3, 1] [1 / 1000, 2 / 1000])
       = Hourly [1 / 1000, 2 / 1000]
   \<and> length [1 / 1000, 2 / 1000 :: real] = length [3, 1 :: real]
   \<and> (1::int) \<le> 3 \<and> (3::int) \<le> 25 \<and> (0::nat) < length [3, 1 :: real]
   \<and> (\<exists>eb tbl.
         calc_annual_energy_balance (default_Inputs [3, 1] [1 / 1000, 2 / 1000]) = Inr eb
         \<and> map_of eb 3 = Some tbl \<and> enPV_total (tbl ! 0) = 79 / 80)"
  using pv_total_degraded [of "default_Inputs [3, 1] [1 / 1000, 2 / 1000]" 25 "[3, 1]"
      "[1 / 1000, 2 / 1000]" 3 0]
  by (simp add: default_Inputs_def)

section \<open>Properties of the grids\<close>

lemma linspace_Inr:
  "0 \<le> num \<Longrightarrow> \<exists>ys. linspace start stop num = Inr ys \<and> length ys = nat num"
  by (simp add: linspace_def Let_def)

lemma linspace_hd_last:
  assumes "2 \<le> num" and "linspace start stop num = Inr ys"
  shows "hd ys = start" and "last ys = stop"
proof -
  define n where "n = nat num"
  define g where "g = (\<lambda>i. if 1 < n \<and> i = n - 1 then stop
                          else if n = 1 then start
                          else start + real i * ((stop - start) / real (n - 1)))"
  have n: "2 \<le> n"
    using assms(1) by (simp add: n_def)
  have ys: "ys = map g [0..<n]"
    using assms unfolding n_def g_def by (auto simp: linspace_def Let_def)
  have ne: "[0..<n] \<noteq> []"
    using n by simp
  have "hd ys = g 0"
    unfolding ys using ne n by (simp add: hd_map)
  also have "g 0 = start"
    using n by (simp add: g_def)
  finally show "hd ys = start" .
  have "last ys = g (n - 1)"
    unfolding ys using ne n by (simp add: last_map)
  also have "g (n - 1) = stop"
    using n by (simp add: g_def)
  finally show "last ys = stop" .
qed

lemma logspace_hd_last:
  assumes "2 \<le> num" and "logspace 0 (log 10 d) num = Inr ys" and "0 < d"
  shows "length ys = nat num" and "hd ys = 1" and "last ys = d"
proof -
  obtain zs where zs: "linspace 0 (log 10 d) num = Inr zs" and len: "length zs = nat num"
    using linspace_Inr [of num 0 "log 10 d"] assms(1) by auto
  have ys: "ys = map (\<lambda>y. 10 powr y) zs"
    using assms(2) zs by (simp add: logspace_def)
  have ne: "zs \<noteq> []"
    using len assms(1) by auto
  show "length ys = nat num"
    by (simp add: ys len)
  show "hd ys = 1"
    using linspace_hd_last(1) [OF assms(1) zs] ne by (simp add: ys hd_map)
  show "last ys = d"
    using linspace_hd_last(2) [OF assms(1) zs] ne assms(3) by (simp add: ys last_map)
qed

text \<open>
  C5. The capacity grid. With the log scale, \<open>var_max > var_min + 1\<close> and at least two
  steps, the grid is \<open>logspace\<close> from the exponent 0 to \<open>log10 (var_max - var_min)\<close>: it
  has \<open>steps\<close> elements, the first is 1 whatever the minimum is, the last is
  \<open>var_max - var_min\<close>. Without the log scale the grid is \<open>linspace\<close> from \<open>var_min\<close> to
  \<open>var_max\<close> with the requested number of steps.
\<close>

theorem generate_pv_range_grid:
  assumes "vmin + 1 < vmax" and "2 \<le> steps"
  shows "(\<exists>pv_range. generate_pv_range vmin vmax steps True = Inr pv_range
            \<and> logspace 0 (log 10 (vmax - vmin)) steps = Inr pv_range
            \<and> length pv_range = nat steps
            \<and> hd pv_range = 1 \<and> last pv_range = vmax - vmin)
         \<and> generate_pv_range vmin vmax steps False = linspace vmin vmax steps"
proof
  have pos: "0 < vmax - vmin"
    using assms(1) by simp
  obtain zs where zs: "linspace 0 (log 10 (vmax - vmin)) steps = Inr zs"
    using linspace_Inr [of steps] assms(2) by force
  then have ls: "logspace 0 (log 10 (vmax - vmin)) steps = Inr (map (\<lambda>y. 10 powr y) zs)"
    by (simp add: logspace_def)
  have gen: "generate_pv_range vmin vmax steps True
               = logspace 0 (log 10 (vmax - vmin)) steps"
    using pos by (simp add: generate_pv_range_def Let_def)
  show "\<exists>pv_range. generate_pv_range vmin vmax steps True = Inr pv_range
           \<and> logspace 0 (log 10 (vmax - vmin)) steps = Inr pv_range
           \<and> length pv_range = nat steps
           \<and> hd pv_range = 1 \<and> last pv_range = vmax - vmin"
    using gen ls logspace_hd_last [OF assms(2) ls pos] by simp
  show "generate_pv_range vmin vmax steps False = linspace vmin vmax steps"
    by (simp add: generate_pv_range_def)
qed

theorem generate_pv_range_grid_witness:
  "(1::real) + 1 < 1001 \<and> (2::int) \<le> 3
   \<and> (\<exists>pv_range. generate_pv_range 1 1001 3 True = Inr pv_range
         \<and> logspace 0 (log 10 (1001 - 1)) 3 = Inr pv_range
         \<and> length pv_range = nat 3 \<and> hd pv_range = 1 \<and> last pv_range = 1001 - 1)
   \<and> generate_pv_range 1 1001 3 False = linspace 1 1001 3"
  using generate_pv_range_grid [of 1 1001 3] by simp

theorem generate_pv_range_single_step:
  "(0::real) + 1 < 100 \<and> generate_pv_range 0 100 1 True = Inr [1]
   \<and> last [1] \<noteq> (100 - 0 :: real)"
  by (simp add: generate_pv_range_def logspace_def linspace_def Let_def)

section \<open>Properties of the objective wrapper\<close>

lemma wrapper_unknown_variable:
  "variable_attribute (opt_variable self) = None \<Longrightarrow>
     optimising_function_wrapper cls self x = Inl ValueError"
  by (simp add: optimising_function_wrapper_def)

lemma wrapper_without_update_scenario:
  assumes "variable_attribute (opt_variable self) = Some attr" and "x \<noteq> []"
    and "update_scenario cls = None"
  shows "optimising_function_wrapper cls self x = Inl AttributeError"
  using assms by (cases x) (simp_all add: optimising_function_wrapper_def)

text \<open>Against a class that has the two members, the wrapper returns the metric, its
  negation or its distance to the goal.\<close>

lemma wrapper_with_update_scenario:
  assumes "variable_attribute (opt_variable self) = Some attr"
    and "update_scenario cls = Some update"
    and "update (setattr cls attr x0 (scenario self)) = Inr s"
    and "summary cls = Some table" and "table s (objective self) = Inr m"
  shows "optimising_function_wrapper cls self (x0 # xs) =
           (if optimisation self = ''Min'' then Inr (s, m)
            else if optimisation self = ''Max'' then Inr (s, m * - 1)
            else if optimisation self = ''Goal-Seek'' then Inr (s, m - to_value self)
            else Inl ValueError)"
  using assms by (simp add: optimising_function_wrapper_def read_summary_def)

text \<open>
  C8. On a scenario of the repository's class \<open>Scenario\<close>, the wrapper called with the
  supported variable \<open>PV Capacity\<close> and the strategy \<open>Min\<close> returns no metric: the class has
  no method \<open>update_scenario\<close>, and the call raises \<open>AttributeError\<close>.
\<close>

theorem wrapper_on_Scenario_raises:
  "optimising_function_wrapper Scenario_class
     \<lparr>scenario = s, objective = ''npv'', optimisation = ''Min'',
      opt_variable = ''PV Capacity'', init_value = 1000, to_value = 0\<rparr> [1000]
   = Inl AttributeError"
  by (simp add: optimising_function_wrapper_def variable_attribute_def Scenario_class_def)

section \<open>Properties of the sensitivity sweep\<close>

lemma run_sensitivity_fields_no_match:
  "variable self \<notin> set fs \<Longrightarrow>
     run_sensitivity_fields npf_irr self fs inputs results = Inr (inputs, results)"
  by (induction fs) auto

text \<open>
  C9. A secondary variable name that is the name of no field of the inputs raises no
  error: the sweep completes, leaves the inputs as they were and returns a result with no
  entry.
\<close>

theorem run_sensitivity_unknown_variable:
  assumes "variable self \<notin> set Inputs_fields"
  shows "run_sensitivity npf_irr self = Inr (sens_inputs self, [])"
  using assms by (simp add: run_sensitivity_def run_sensitivity_fields_no_match)

theorem run_sensitivity_unknown_variable_witness:
  "variable \<lparr>sens_inputs = default_Inputs [1] [1], variable = ''tariff'', var_min = 1,
       var_max = 10, variable_range = [1, 10], pv_var_min = 1, pv_var_max = 1000,
       pv_steps = 3, pv_log_scale = True\<rparr> \<notin> set Inputs_fields
   \<and> run_sensitivity (\<lambda>cf. Inr NaN)
        \<lparr>sens_inputs = default_Inputs [1] [1], variable = ''tariff'', var_min = 1,
         var_max = 10, variable_range = [1, 10], pv_var_min = 1, pv_var_max = 1000,
         pv_steps = 3, pv_log_scale = True\<rparr>
       = Inr (default_Inputs [1] [1], [])"
  using run_sensitivity_unknown_variable
    [of "\<lparr>sens_inputs = default_Inputs [1] [1], variable = ''tariff'', var_min = 1,
         var_max = 10, variable_range = [1, 10], pv_var_min = 1, pv_var_max = 1000,
         pv_steps = 3, pv_log_scale = True\<rparr>" "\<lambda>cf. Inr NaN"]
  by (simp add: Inputs_fields_def)

theorem run_sensitivity_unknown_variable_returns:
  "run_sensitivity (\<lambda>cf. Inr NaN)
     \<lparr>sens_inputs = default_Inputs [1] [1], variable = ''capacity'', var_min = 1,
      var_max = 10, variable_range = [1, 10], pv_var_min = 1, pv_var_max = 1000,
      pv_steps = 3, pv_log_scale = True\<rparr>
   = Inr (default_Inputs [1] [1], [])"
  by (simp add: run_sensitivity_def Inputs_fields_def)

section \<open>Frames: reading, writing and sorting\<close>

lemma index_loc_set:
  "index (loc_set df i c v) = (if i \<in> set (index df) then index df else index df @ [i])"
  by (auto simp: loc_set_def index_def intro!: map_idI)

lemma map_of_loc_set_other:
  "j \<noteq> i \<Longrightarrow> map_of (loc_set df i c v) j = map_of df j"
proof (cases "i \<in> set (index df)")
  case True
  assume "j \<noteq> i"
  then have "map_of (map (\<lambda>(k, r). if k = i then (k, r(c := v)) else (k, r)) df) j = map_of df j"
    by (induction df) auto
  with True show ?thesis by (simp add: loc_set_def)
next
  case False
  assume "j \<noteq> i"
  then show ?thesis using False
    by (simp add: loc_set_def map_add_def split: option.splits)
qed

lemma loc_loc_set:
  "loc (loc_set df i c v) j d = (if j = i \<and> d = c then v else loc df j d)"
proof (cases "j = i")
  case False
  then show ?thesis by (simp add: loc_def map_of_loc_set_other)
next
  case True
  show ?thesis
  proof (cases "i \<in> set (index df)")
    case False
    then have "map_of df i = None"
      by (simp add: index_def map_of_eq_None_iff)
    with False True show ?thesis
      by (simp add: loc_def loc_set_def map_add_def empty_row_def)
  next
    case mem: True
    have "map_of (map (\<lambda>(k, r). if k = i then (k, r(c := v)) else (k, r)) df) i
            = map_option (\<lambda>r. r(c := v)) (map_of df i)"
      by (induction df) auto
    moreover have "map_of df i \<noteq> None"
      using mem by (simp add: index_def map_of_eq_None_iff)
    ultimately show ?thesis
      using mem True by (auto simp: loc_def loc_set_def)
  qed
qed

lemma Let_inv: "P a \<Longrightarrow> (\<And>x. P x \<Longrightarrow> Q (f x)) \<Longrightarrow> Q (Let a f)"
  by simp

lemma if_inv: "(b \<Longrightarrow> P x) \<Longrightarrow> (\<not> b \<Longrightarrow> P y) \<Longrightarrow> P (if b then x else y)"
  by simp

text \<open>What holds of the frame before a year of the discounting and is kept by every
  cell that the year divides or assigns, holds after the year.\<close>

lemma discounted_cashflow_year_induct:
  assumes "0 < year" and start: "P data0"
    and divide: "\<And>d c. c \<in> {EnLoad, EnPV_total, EnPV_self_cons, EnGrid_import, EnGrid_export,
                           Import_costs, Export_sales, Opex} \<Longrightarrow> P d \<Longrightarrow>
                   P (loc_set d year c
                        (loc d year c / Fin ((1 + discount_rate inp) ^ nat year)))"
    and assign: "\<And>d c v. c \<in> {EnPV_revenues, Loan_payment, Cashflow, Cash_balance} \<Longrightarrow>
                   P d \<Longrightarrow> P (loc_set d year c v)"
  shows "P (discounted_cashflow_year inp year data0)"
  unfolding discounted_cashflow_year_def
  apply (simp only: assms(1) if_True)
  apply (subst Let_def)
  apply (rule Let_inv [where P = P], rule divide, simp, rule start)
  apply (rule Let_inv [where P = P], rule divide, simp, assumption)
  apply (rule Let_inv [where P = P], rule divide, simp, assumption)
  apply (rule Let_inv [where P = P], rule divide, simp, assumption)
  apply (rule Let_inv [where P = P], rule divide, simp, assumption)
  apply (rule Let_inv [where P = P], rule divide, simp, assumption)
  apply (rule Let_inv [where P = P], rule divide, simp, assumption)
  apply (rule Let_inv [where P = P], rule assign, simp, assumption)
  apply (rule Let_inv [where P = P], rule divide, simp, assumption)
  apply (rule Let_inv [where P = P], rule assign, simp, assumption)
  apply (rule Let_inv [where P = P])
   apply (rule if_inv)
    apply (subst Let_def, rule assign, simp, assumption)
   apply assumption
  apply (rule Let_inv [where P = P], rule assign, simp, assumption)
  apply (rule Let_inv [where P = P], rule assign, simp, assumption)
  apply assumption
  done

lemma discounted_cashflow_year_nonpos:
  "\<not> 0 < year \<Longrightarrow> discounted_cashflow_year inp year data0 = data0"
  by (simp only: discounted_cashflow_year_def if_False)

lemma dcy_other:
  assumes "j \<noteq> year"
  shows "map_of (discounted_cashflow_year inp year data0) j = map_of data0 j"
proof (cases "0 < year")
  case True
  show ?thesis
    by (rule discounted_cashflow_year_induct [where P = "\<lambda>d. map_of d j = map_of data0 j"])
       (simp_all add: True assms map_of_loc_set_other)
next
  case False
  then show ?thesis by (simp add: discounted_cashflow_year_nonpos)
qed

lemma dcy_index:
  assumes "year \<in> set (index data0)"
  shows "index (discounted_cashflow_year inp year data0) = index data0"
proof (cases "0 < year")
  case True
  show ?thesis
    by (rule discounted_cashflow_year_induct [where P = "\<lambda>d. index d = index data0"])
       (simp_all add: True assms index_loc_set)
next
  case False
  then show ?thesis by (simp add: discounted_cashflow_year_nonpos)
qed

lemma zero_or_nan_divide: "zero_or_nan v \<Longrightarrow> zero_or_nan (v / Fin r)"
  by (auto simp: zero_or_nan_def)

lemma dcy_zero:
  assumes "c \<in> {EnLoad, EnPV_total, EnPV_self_cons, EnGrid_import, EnGrid_export,
                 Import_costs, Export_sales, Opex}"
    and "\<forall>y. zero_or_nan (loc data0 y c)"
  shows "zero_or_nan (loc (discounted_cashflow_year inp year data0) j c)"
proof (cases "0 < year")
  case True
  show ?thesis
  proof (rule discounted_cashflow_year_induct
           [where P = "\<lambda>d. zero_or_nan (loc d j c)"], rule True)
    show "zero_or_nan (loc data0 j c)"
      using assms(2) by simp
  next
    fix d c'
    assume "zero_or_nan (loc d j c)"
    then show "zero_or_nan (loc (loc_set d year c'
                  (loc d year c' / Fin ((1 + discount_rate inp) ^ nat year))) j c)"
      by (auto simp: loc_loc_set zero_or_nan_divide)
  next
    fix d c' v
    assume "c' \<in> {EnPV_revenues, Loan_payment, Cashflow, Cash_balance}"
      and "zero_or_nan (loc d j c)"
    then show "zero_or_nan (loc (loc_set d year c' v) j c)"
      using assms(1) by (auto simp: loc_loc_set)
  qed
next
  case False
  then show ?thesis
    using assms(2) by (simp add: discounted_cashflow_year_nonpos)
qed

section \<open>sort_index, column_values, select_columns\<close>

lemma distinct_map_insort_key:
  "distinct (map f (insort_key f x xs)) \<longleftrightarrow> f x \<notin> f ` set xs \<and> distinct (map f xs)"
  by (induction xs) (auto simp: set_insort_key)

lemma distinct_map_sort_key:
  "distinct (map f (sort_key f xs)) \<longleftrightarrow> distinct (map f xs)"
  by (induction xs) (auto simp: distinct_map_insort_key)

lemma distinct_index_sort_index:
  "distinct (index df) \<Longrightarrow> distinct (index (sort_index df))"
  by (simp add: index_def sort_index_def distinct_map_sort_key)

lemma map_of_sort_index:
  assumes "distinct (index df)"
  shows "map_of (sort_index df) = map_of df"
proof -
  have "distinct (map fst (sort_index df))"
    using distinct_index_sort_index [OF assms] by (simp add: index_def)
  moreover have "set (sort_index df) = set df"
    by (simp add: sort_index_def)
  ultimately show ?thesis
    using assms by (simp add: map_of_inject_set index_def)
qed

lemma index_sort_index:
  assumes "distinct (index df)" and "set (index df) = {m..n}"
  shows "index (sort_index df) = [m..n]"
proof (rule sorted_distinct_set_unique)
  show "sorted (index (sort_index df))"
    by (simp add: index_def sort_index_def sorted_sort_key)
  show "distinct (index (sort_index df))"
    by (rule distinct_index_sort_index [OF assms(1)])
  show "set (index (sort_index df)) = set [m..n]"
    using assms(2) by (simp add: index_def sort_index_def)
qed simp_all

lemma sort_index_sorted:
  "index df = [m..n] \<Longrightarrow> sort_index df = df"
  by (simp add: sort_index_def index_def sort_key_id_if_sorted)

lemma loc_sort_index:
  "distinct (index df) \<Longrightarrow> loc (sort_index df) i c = loc df i c"
  by (simp add: loc_def map_of_sort_index)

lemma column_values_loc:
  assumes "distinct (index df)"
  shows "column_values df c = map (\<lambda>i. loc df i c) (index df)"
proof -
  have "\<And>k r. (k, r) \<in> set df \<Longrightarrow> map_of df k = Some r"
    using assms by (simp add: index_def)
  then show ?thesis
    by (auto simp: column_values_def index_def loc_def)
qed

lemma index_select_columns: "index (select_columns cs df) = index df"
  by (simp add: select_columns_def index_def case_prod_unfold o_def)

lemma loc_select_columns:
  "loc (select_columns cs df) i c = (if c \<in> set cs then loc df i c else NaN)"
proof -
  have "map_of (select_columns cs df) i
          = map_option (\<lambda>r c. if c \<in> set cs then r c else NaN) (map_of df i)"
    unfolding select_columns_def by (induction df) auto
  then show ?thesis
    by (simp add: loc_def split: option.splits)
qed

section \<open>Loops over the years of a frame\<close>

lemma fold_index:
  assumes "\<And>y d. y \<in> set ys \<Longrightarrow> y \<in> set (index d) \<Longrightarrow> index (body y d) = index d"
    and "set ys \<subseteq> set (index df)"
  shows "index (fold body ys df) = index df"
  using assms by (induction ys arbitrary: df) auto

lemma fold_column_kept:
  assumes "\<And>y d j. loc (body y d) j c = loc d j c"
  shows "loc (fold body ys df) j c = loc df j c"
  using assms by (induction ys arbitrary: df) auto

lemma fold_row_kept:
  assumes "\<And>y d. y \<in> set ys \<Longrightarrow> map_of (body y d) j = map_of d j"
  shows "map_of (fold body ys df) j = map_of df j"
  using assms by (induction ys arbitrary: df) auto

lemma fold_invariant:
  assumes "P df" and "\<And>y d. y \<in> set ys \<Longrightarrow> P d \<Longrightarrow> P (body y d)"
  shows "P (fold body ys df)"
  using assms by (induction ys arbitrary: df) auto

section \<open>The yearly summary, year by year\<close>

lemma energy_balance_summary_year_induct:
  assumes first: "P (loc_set dfa year EnLoad (Fin (sum_list (map enLoad tbl) / 1000)))"
    and sums: "\<And>d c f. (c, f) \<in> {(EnPV_total, enPV_total),
                   (EnPV_self_cons, enPV_self_cons), (EnGrid_import, enGrid_import),
                   (EnGrid_export, enGrid_export)} \<Longrightarrow> P d \<Longrightarrow>
                 P (loc_set d year c (Fin (sum_list (map f tbl) / 1000)))"
    and ratio: "\<And>d c v. c \<in> {PV_self_cons_pct, PV_usage_pct} \<Longrightarrow> P d \<Longrightarrow>
                  P (loc_set d year c v)"
  shows "P (energy_balance_summary_year dfa (year, tbl))"
  unfolding energy_balance_summary_year_def
  apply (subst Let_def, subst Let_def)
  apply (simp only: fst_conv snd_conv)
  apply (rule Let_inv [where P = P], rule first)
  apply (rule Let_inv [where P = P], rule sums, simp, assumption)
  apply (rule Let_inv [where P = P], rule sums, simp, assumption)
  apply (rule Let_inv [where P = P], rule sums, simp, assumption)
  apply (rule Let_inv [where P = P], rule sums, simp, assumption)
  apply (rule Let_inv [where P = P], rule ratio, simp, assumption)
  apply (rule Let_inv [where P = P], rule ratio, simp, assumption)
  apply assumption
  done

lemma ebs_year_index:
  "index (energy_balance_summary_year df (y, tbl))
     = (if y \<in> set (index df) then index df else index df @ [y])"
  by (rule energy_balance_summary_year_induct) (simp_all add: index_loc_set)

lemma ebs_year_other:
  "j \<noteq> y \<Longrightarrow> map_of (energy_balance_summary_year df (y, tbl)) j = map_of df j"
  by (rule energy_balance_summary_year_induct) (simp_all add: map_of_loc_set_other)

lemma ebs_year_zero:
  assumes "(c, f) \<in> {(EnLoad, enLoad), (EnPV_total, enPV_total),
             (EnPV_self_cons, enPV_self_cons), (EnGrid_import, enGrid_import),
             (EnGrid_export, enGrid_export)}"
    and "sum_list (map f tbl) = 0" and "zero_or_nan (loc df j c)"
  shows "zero_or_nan (loc (energy_balance_summary_year df (y, tbl)) j c)"
proof (rule energy_balance_summary_year_induct [where P = "\<lambda>d. zero_or_nan (loc d j c)"])
  show "zero_or_nan (loc (loc_set df y EnLoad (Fin (sum_list (map enLoad tbl) / 1000))) j c)"
    using assms by (auto simp: loc_loc_set zero_or_nan_def)
next
  fix d c' and f' :: "hourly_row \<Rightarrow> real"
  assume "(c', f') \<in> {(EnPV_total, enPV_total),
             (EnPV_self_cons, enPV_self_cons), (EnGrid_import, enGrid_import),
             (EnGrid_export, enGrid_export)}"
    and "zero_or_nan (loc d j c)"
  then show "zero_or_nan (loc (loc_set d y c' (Fin (sum_list (map f' tbl) / 1000))) j c)"
    using assms(1,2) by (auto simp: loc_loc_set zero_or_nan_def)
next
  fix d c' v
  assume "c' \<in> {PV_self_cons_pct, PV_usage_pct}" and "zero_or_nan (loc d j c)"
  then show "zero_or_nan (loc (loc_set d y c' v) j c)"
    using assms(1) by (auto simp: loc_loc_set)
qed

lemma ebs_index:
  "distinct (index df @ map fst eb) \<Longrightarrow>
     index (foldl energy_balance_summary_year df eb) = index df @ map fst eb"
proof (induction eb arbitrary: df)
  case Nil
  then show ?case by simp
next
  case (Cons a eb)
  obtain y tbl where a: "a = (y, tbl)" by (cases a)
  have "index (energy_balance_summary_year df (y, tbl)) = index df @ [y]"
    using Cons.prems by (simp add: ebs_year_index a)
  then show ?case
    using Cons.prems Cons.IH [of "energy_balance_summary_year df (y, tbl)"] by (simp add: a)
qed

lemma ebs_zero:
  assumes "(c, f) \<in> {(EnLoad, enLoad), (EnPV_total, enPV_total),
             (EnPV_self_cons, enPV_self_cons), (EnGrid_import, enGrid_import),
             (EnGrid_export, enGrid_export)}"
    and "\<forall>(y, tbl) \<in> set eb. sum_list (map f tbl) = 0"
    and "\<forall>j. zero_or_nan (loc df j c)"
  shows "zero_or_nan (loc (foldl energy_balance_summary_year df eb) j c)"
  using assms(2,3)
proof (induction eb arbitrary: df)
  case Nil
  then show ?case by simp
next
  case (Cons a eb)
  obtain y tbl where a: "a = (y, tbl)" by (cases a)
  have "\<forall>j. zero_or_nan (loc (energy_balance_summary_year df (y, tbl)) j c)"
    using ebs_year_zero [OF assms(1)] Cons.prems a by simp
  then show ?case
    using Cons.IH [of "energy_balance_summary_year df (y, tbl)"] Cons.prems(1) by (simp add: a)
qed

section \<open>The cashflow, year by year\<close>

lemma cashflow_year_induct:
  assumes start: "P data0"
    and step: "\<And>d c v. c \<notin> {EnLoad, EnPV_total, EnPV_self_cons, EnGrid_import, EnGrid_export}
                 \<Longrightarrow> P d \<Longrightarrow> P (loc_set d year c v)"
  shows "P (cashflow_year inp ebs_df year data0)"
  unfolding cashflow_year_def
  apply (rule Let_inv [where P = P], rule step, simp, rule start)
  apply (rule Let_inv [where P = P], rule step, simp, assumption)
  apply (rule Let_inv [where P = P], rule step, simp, assumption)
  apply (rule Let_inv [where P = P], rule step, simp, assumption)
  apply (rule Let_inv [where P = P], rule step, simp, assumption)
  apply (rule Let_inv [where P = P], rule step, simp, assumption)
  apply (subst Let_def)
  apply (rule Let_inv [where P = P], rule step, simp, assumption)
  apply (rule Let_inv [where P = P], rule step, simp, assumption)
  apply (rule Let_inv [where P = P])
   apply (rule if_inv)
    apply (subst Let_def, rule step, simp, assumption)
   apply assumption
  apply (rule Let_inv [where P = P], rule step, simp, assumption)
  apply assumption
  done

lemma cashflow_year_index:
  "year \<in> set (index data0) \<Longrightarrow> index (cashflow_year inp ebs_df year data0) = index data0"
  by (rule cashflow_year_induct [where P = "\<lambda>d. index d = index data0"])
     (simp_all add: index_loc_set)

lemma cashflow_year_energy:
  "c \<in> {EnLoad, EnPV_total, EnPV_self_cons, EnGrid_import, EnGrid_export} \<Longrightarrow>
     loc (cashflow_year inp ebs_df year data0) j c = loc data0 j c"
  by (rule cashflow_year_induct [where P = "\<lambda>d. loc d j c = loc data0 j c"])
     (auto simp: loc_loc_set)

lemma cash_balance_year_index:
  "year \<in> set (index df) \<Longrightarrow> index (cash_balance_year year df) = index df"
  by (auto simp: cash_balance_year_def index_loc_set)

lemma cash_balance_year_column:
  "c \<noteq> Cash_balance \<Longrightarrow> loc (cash_balance_year year df) j c = loc df j c"
  by (simp add: cash_balance_year_def loc_loc_set)

lemma sort_append_zero:
  "1 \<le> n \<Longrightarrow> distinct ([1..n] @ [0::int]) \<and> set ([1..n] @ [0]) = {0..n}"
  by auto

lemma cashflow_frame:
  assumes "index ebs = [1..n]" and "1 \<le> n"
  shows "index (calc_cashflow inp ebs) = [0..n]"
    and "c \<in> {EnLoad, EnPV_total, EnPV_self_cons, EnGrid_import, EnGrid_export} \<Longrightarrow>
           loc (calc_cashflow inp ebs) y c = loc ebs y c"
proof -
  define d1 where "d1 = select_columns
      [EnLoad, EnPV_total, EnPV_self_cons, EnGrid_import, EnGrid_export] ebs"
  define d2 where "d2 = fold (cashflow_year inp ebs) (index d1) d1"
  define d3 where "d3 = loc_set d2 0 Cashflow (Fin (- total_investment inp * (1 - loan inp)))"
  define d4 where "d4 = sort_index d3"
  define d5 where "d5 = fold cash_balance_year (index d4) d4"
  have cf: "calc_cashflow inp ebs = sort_index d5"
    by (simp add: calc_cashflow_def Let_def d1_def d2_def d3_def d4_def d5_def)
  have i1: "index d1 = [1..n]"
    by (simp add: d1_def index_select_columns assms)
  have i2: "index d2 = [1..n]"
    unfolding d2_def using i1 by (subst fold_index) (simp_all add: cashflow_year_index)
  have i3: "index d3 = [1..n] @ [0]"
    by (simp add: d3_def index_loc_set i2)
  have i4: "index d4 = [0..n]"
    unfolding d4_def using sort_append_zero [OF assms(2)]
    by (intro index_sort_index) (simp_all add: i3)
  have i5: "index d5 = [0..n]"
    unfolding d5_def using i4 by (subst fold_index) (simp_all add: cash_balance_year_index)
  show "index (calc_cashflow inp ebs) = [0..n]"
    by (simp add: cf sort_index_sorted [OF i5] i5)
  show "loc (calc_cashflow inp ebs) y c = loc ebs y c"
    if c: "c \<in> {EnLoad, EnPV_total, EnPV_self_cons, EnGrid_import, EnGrid_export}"
  proof -
    have ne: "c \<noteq> Cash_balance" "c \<noteq> Cashflow"
      using c by auto
    have "loc (calc_cashflow inp ebs) y c = loc d5 y c"
      by (simp add: cf sort_index_sorted [OF i5])
    also have "\<dots> = loc d4 y c"
      unfolding d5_def by (rule fold_column_kept) (simp add: cash_balance_year_column ne)
    also have "\<dots> = loc d3 y c"
      unfolding d4_def using sort_append_zero [OF assms(2)] by (simp add: loc_sort_index i3)
    also have "\<dots> = loc d2 y c"
      by (simp add: d3_def loc_loc_set ne)
    also have "\<dots> = loc d1 y c"
      unfolding d2_def by (rule fold_column_kept) (rule cashflow_year_energy [OF c])
    also have "\<dots> = loc ebs y c"
      using c by (auto simp: d1_def loc_select_columns)
    finally show ?thesis .
  qed
qed

section \<open>The discounted cashflow\<close>

lemma discounted_index:
  assumes "index cf = [0..n]"
  shows "index (calc_discounted_cashflow inp cf) = [0..n]"
proof -
  have "index (fold (discounted_cashflow_year inp) (index cf) cf) = index cf"
    by (rule fold_index) (simp_all add: dcy_index)
  then show ?thesis
    by (simp add: calc_discounted_cashflow_def Let_def assms sort_index_sorted)
qed

lemma discounted_year_0:
  assumes "index cf = [0..n]"
  shows "map_of (calc_discounted_cashflow inp cf) 0 = map_of cf 0"
proof -
  have i: "index (fold (discounted_cashflow_year inp) (index cf) cf) = [0..n]"
    using assms by (subst fold_index) (simp_all add: dcy_index)
  have "map_of (fold (discounted_cashflow_year inp) (index cf) cf) 0 = map_of cf 0"
  proof (rule fold_row_kept)
    fix y d
    show "map_of (discounted_cashflow_year inp y d) 0 = map_of d 0"
      by (cases "y = 0") (simp_all add: dcy_other discounted_cashflow_year_nonpos)
  qed
  then show ?thesis
    by (simp add: calc_discounted_cashflow_def Let_def sort_index_sorted [OF i])
qed

lemma discounted_zero:
  assumes "index cf = [0..n]"
    and "c \<in> {EnLoad, EnPV_total, EnPV_self_cons, EnGrid_import, EnGrid_export,
               Import_costs, Export_sales, Opex}"
    and "\<forall>y. zero_or_nan (loc cf y c)"
  shows "zero_or_nan (loc (calc_discounted_cashflow inp cf) j c)"
proof -
  let ?f = "fold (discounted_cashflow_year inp) (index cf) cf"
  have i: "index ?f = [0..n]"
    using assms(1) by (subst fold_index) (simp_all add: dcy_index)
  have eq: "calc_discounted_cashflow inp cf = ?f"
    by (simp add: calc_discounted_cashflow_def Let_def sort_index_sorted [OF i])
  have "\<forall>y. zero_or_nan (loc ?f y c)"
    by (rule fold_invariant [where P = "\<lambda>d. \<forall>y. zero_or_nan (loc d y c)"])
       (use assms(2,3) dcy_zero in blast)+
  then show ?thesis
    by (simp add: eq)
qed

section \<open>The summary and the constructor\<close>

lemma calc_pay_back_period_Inr:
  "0 \<le> n \<Longrightarrow> \<exists>p. calc_pay_back_period n bal = Inr p"
  by (simp add: calc_pay_back_period_def linspace_def Let_def)

lemma assign_column_single: "assign_column [(k, r)] c v = [(k, r(c := v))]"
  by (simp add: assign_column_def)

lemma loc_single: "loc [(k, r)] k c = r c"
  by (simp add: loc_def)

lemma calc_summary_Inr:
  assumes "study_period inp = PyInt n" and "0 \<le> n"
    and "npf_irr (column_values cf Cashflow) = Inr rate"
  shows "\<exists>d. calc_summary npf_irr inp cf dcf = Inr d"
  using assms calc_pay_back_period_Inr [OF assms(2), of "map (\<lambda>(k, r). (k, r Cash_balance)) cf"]
  by (auto simp: calc_summary_def Let_def)

lemma calc_summary_Inl:
  assumes "study_period inp = PyInt n" and "0 \<le> n"
    and "calc_summary npf_irr inp cf dcf = Inl e"
  shows "npf_irr (column_values cf Cashflow) = Inl e"
  using assms calc_pay_back_period_Inr [OF assms(2), of "map (\<lambda>(k, r). (k, r Cash_balance)) cf"]
  by (auto simp: calc_summary_def Let_def split: sum.splits)

lemma calc_summary_cells:
  assumes "calc_summary npf_irr inp cf dcf = Inr d"
  shows "index d = [pv_capacity inp]"
    and "loc d (pv_capacity inp) Npv = series_sum (column_values dcf Cashflow)"
    and "loc d (pv_capacity inp) Lcoe = fst (calc_LCOE inp dcf)"
    and "loc d (pv_capacity inp) Blcoe = snd (calc_LCOE inp dcf)"
  using assms
  by (auto simp: calc_summary_def Let_def assign_column_single loc_single index_def
      split: sum.splits pynum.splits)

lemma Scenario_init_InrD:
  assumes "Scenario_init npf_irr inp = Inr s"
  shows "calc_annual_energy_balance inp = Inr (energy_balance s)"
    and "calc_energy_balance_summary (energy_balance s) = Inr (energy_balance_summary s)"
    and "cashflow s = calc_cashflow inp (energy_balance_summary s)"
    and "discounted_cashflow s = calc_discounted_cashflow inp (cashflow s)"
    and "calc_summary npf_irr inp (cashflow s) (discounted_cashflow s) = Inr (data s)"
    and "pv_capacity s = pv_capacity inp"
  using assms by (auto simp: Scenario_init_def Let_def split: sum.splits)

lemma energy_balance_Inr:
  assumes "study_period inp = PyInt n" and "load inp = Hourly ld"
  shows "calc_annual_energy_balance inp
           = Inr (map (\<lambda>year. (year, year_energy_balance inp ld year)) [1..n])"
  using assms by (simp add: calc_annual_energy_balance_def)

lemma energy_balance_InrD:
  assumes "calc_annual_energy_balance inp = Inr eb" and "eb \<noteq> []"
  shows "\<exists>n ld. study_period inp = PyInt n \<and> 1 \<le> n \<and> load inp = Hourly ld
           \<and> eb = map (\<lambda>year. (year, year_energy_balance inp ld year)) [1..n]"
  using assms
  by (auto simp: calc_annual_energy_balance_def split: pynum.splits series.splits if_splits)

lemma Scenario_init_years:
  assumes "Scenario_init npf_irr inp = Inr s"
  shows "\<exists>n ld. study_period inp = PyInt n \<and> 1 \<le> n \<and> load inp = Hourly ld
           \<and> energy_balance s = map (\<lambda>year. (year, year_energy_balance inp ld year)) [1..n]
           \<and> index (energy_balance_summary s) = [1..n]
           \<and> index (cashflow s) = [0..n]
           \<and> index (discounted_cashflow s) = [0..n]"
proof -
  note d = Scenario_init_InrD [OF assms]
  have ne: "energy_balance s \<noteq> []"
    using d(2) by (auto simp: calc_energy_balance_summary_def split: if_splits)
  obtain n ld where n: "study_period inp = PyInt n" "1 \<le> n" "load inp = Hourly ld"
      "energy_balance s = map (\<lambda>year. (year, year_energy_balance inp ld year)) [1..n]"
    using energy_balance_InrD [OF d(1) ne] by blast
  have ebs: "energy_balance_summary s
               = foldl energy_balance_summary_year [] (energy_balance s)"
    using d(2) ne by (simp add: calc_energy_balance_summary_def)
  have i1: "index (energy_balance_summary s) = [1..n]"
    unfolding ebs by (subst ebs_index) (simp_all add: n(4) index_def o_def)
  have i2: "index (cashflow s) = [0..n]"
    unfolding d(3) by (rule cashflow_frame(1) [OF i1 n(2)])
  have i3: "index (discounted_cashflow s) = [0..n]"
    unfolding d(4) by (rule discounted_index [OF i2])
  show ?thesis
    using n i1 i2 i3 by blast
qed

lemma Scenario_init_Inr:
  assumes "study_period inp = PyInt n" and "1 \<le> n" and "load inp = Hourly ld"
    and "\<And>cf. \<exists>rate. npf_irr cf = Inr rate"
  shows "\<exists>s. Scenario_init npf_irr inp = Inr s"
proof -
  let ?eb = "map (\<lambda>year. (year, year_energy_balance inp ld year)) [1..n]"
  have eb: "calc_annual_energy_balance inp = Inr ?eb"
    by (rule energy_balance_Inr [OF assms(1,3)])
  have "?eb \<noteq> []"
    using assms(2) by (simp add: upto_rec1)
  then obtain ebs where ebs: "calc_energy_balance_summary ?eb = Inr ebs"
    by (simp add: calc_energy_balance_summary_def)
  let ?cf = "calc_cashflow inp ebs"
  let ?dcf = "calc_discounted_cashflow inp ?cf"
  obtain rate where "npf_irr (column_values ?cf Cashflow) = Inr rate"
    using assms(4) by blast
  then obtain d where "calc_summary npf_irr inp ?cf ?dcf = Inr d"
    using calc_summary_Inr [OF assms(1)] assms(2) by force
  then show ?thesis
    using eb ebs by (simp add: Scenario_init_def Let_def)
qed

section \<open>Properties of the discounting\<close>

text \<open>
  C2. Discounting consistency. In every scenario that is built, the tables of the cashflow
  and of the discounted cashflow have one row per year \<open>0..n\<close>, the NPV of the summary
  row is the sum of the discounted cashflow column over these years, and the row of year 0
  is the same in both tables: year 0 is not discounted.
\<close>

theorem npv_is_discounted_sum:
  assumes "Scenario_init npf_irr inp = Inr s"
  shows "\<exists>n. study_period inp = PyInt n \<and> 1 \<le> n
           \<and> index (cashflow s) = [0..n] \<and> index (discounted_cashflow s) = [0..n]
           \<and> loc (data s) (pv_capacity s) Npv
               = series_sum (map (\<lambda>y. loc (discounted_cashflow s) y Cashflow) [0..n])
           \<and> map_of (discounted_cashflow s) 0 = map_of (cashflow s) 0
           \<and> map_of (cashflow s) 0 \<noteq> None"
proof -
  note d = Scenario_init_InrD [OF assms]
  obtain n where n: "study_period inp = PyInt n" "1 \<le> n"
      "index (cashflow s) = [0..n]" "index (discounted_cashflow s) = [0..n]"
    using Scenario_init_years [OF assms] by blast
  have "column_values (discounted_cashflow s) Cashflow
          = map (\<lambda>y. loc (discounted_cashflow s) y Cashflow) [0..n]"
    using column_values_loc [of "discounted_cashflow s" Cashflow] n(4) by simp
  then have npv: "loc (data s) (pv_capacity s) Npv
      = series_sum (map (\<lambda>y. loc (discounted_cashflow s) y Cashflow) [0..n])"
    using calc_summary_cells(2) [OF d(5)] d(6) by simp
  have row0: "map_of (discounted_cashflow s) 0 = map_of (cashflow s) 0"
    unfolding d(4) by (rule discounted_year_0 [OF n(3)])
  have "0 \<in> fst ` set (cashflow s)"
    using n(2,3) by (simp add: index_def flip: set_map)
  then have "map_of (cashflow s) 0 \<noteq> None"
    by (simp add: map_of_eq_None_iff)
  then show ?thesis
    using n npv row0 by blast
qed

text \<open>An instance: the default inputs around a two-hour load. Their cashflows are all
  negative, where the IRR routine finds no rate and returns \<open>nan\<close>.\<close>

theorem npv_is_discounted_sum_witness:
  "\<exists>s. Scenario_init (\<lambda>cf. Inr NaN) (default_Inputs [3, 1] [1 / 1000, 2 / 1000]) = Inr s
       \<and> index (cashflow s) = [0..25] \<and> index (discounted_cashflow s) = [0..25]
       \<and> loc (data s) (pv_capacity s) Npv
           = series_sum (map (\<lambda>y. loc (discounted_cashflow s) y Cashflow) [0..25])
       \<and> map_of (discounted_cashflow s) 0 = map_of (cashflow s) 0
       \<and> map_of (cashflow s) 0 \<noteq> None"
proof -
  let ?inp = "default_Inputs [3, 1] [1 / 1000, 2 / 1000]"
  have sp: "study_period ?inp = PyInt 25" and ld: "load ?inp = Hourly [3, 1]"
    by (simp_all add: default_Inputs_def)
  obtain s where s: "Scenario_init (\<lambda>cf. Inr NaN) ?inp = Inr s"
    using Scenario_init_Inr [OF sp _ ld, of "\<lambda>cf. Inr NaN"] by auto
  show ?thesis
    using npv_is_discounted_sum [OF s] s sp by auto
qed

section \<open>Properties of the capacity sweep\<close>

lemma set_dict_set: "set (dict_set d k v) \<subseteq> insert (k, v) (set d)"
  by (auto simp: dict_set_def split: if_splits)

lemma run_pv_sensitivity_loop_inputs:
  assumes "run_pv_sensitivity_loop npf_irr inputs pv_range all_scenario = Inr (inputs', d)"
    and "pv_range \<noteq> []"
  shows "inputs' = inputs\<lparr>pv_capacity := real_of_int (py_round (last pv_range))\<rparr>"
  using assms
proof (induction pv_range arbitrary: inputs all_scenario)
  case Nil
  then show ?case by simp
next
  case (Cons capacity rest)
  let ?inp = "inputs\<lparr>pv_capacity := real_of_int (py_round capacity)\<rparr>"
  obtain scenario where sc: "Scenario_init npf_irr ?inp = Inr scenario"
    and run: "run_pv_sensitivity_loop npf_irr ?inp rest
                (dict_set all_scenario (py_round capacity) scenario) = Inr (inputs', d)"
    using Cons.prems(1) by (auto simp: Let_def split: sum.splits)
  show ?case
  proof (cases "rest = []")
    case True
    then show ?thesis using run by simp
  next
    case False
    then show ?thesis
      using Cons.IH [OF run] by simp
  qed
qed

lemma run_pv_sensitivity_loop_scenarios:
  assumes "run_pv_sensitivity_loop npf_irr inputs pv_range all_scenario = Inr (inputs', d)"
    and "(k, s) \<in> set d"
  shows "(k, s) \<in> set all_scenario
         \<or> (\<exists>capacity \<in> set pv_range. k = py_round capacity
               \<and> Scenario_init npf_irr
                     (inputs\<lparr>pv_capacity := real_of_int (py_round capacity)\<rparr>) = Inr s)"
  using assms
proof (induction pv_range arbitrary: inputs all_scenario)
  case Nil
  then show ?case by simp
next
  case (Cons capacity rest)
  let ?inp = "inputs\<lparr>pv_capacity := real_of_int (py_round capacity)\<rparr>"
  obtain scenario where sc: "Scenario_init npf_irr ?inp = Inr scenario"
    and run: "run_pv_sensitivity_loop npf_irr ?inp rest
                (dict_set all_scenario (py_round capacity) scenario) = Inr (inputs', d)"
    using Cons.prems(1) by (auto simp: Let_def split: sum.splits)
  from Cons.IH [OF run Cons.prems(2)]
  show ?case
  proof
    assume "(k, s) \<in> set (dict_set all_scenario (py_round capacity) scenario)"
    then have "(k, s) = (py_round capacity, scenario) \<or> (k, s) \<in> set all_scenario"
      using set_dict_set by fastforce
    then show ?thesis using sc by auto
  next
    assume "\<exists>c \<in> set rest. k = py_round c
              \<and> Scenario_init npf_irr (?inp\<lparr>pv_capacity := real_of_int (py_round c)\<rparr>) = Inr s"
    then show ?thesis by auto
  qed
qed

text \<open>
  C10. The sweep writes the inputs in place. After a sweep over a grid that is not empty
  returns, the inputs are the inputs it was given with the PV capacity overwritten by the
  rounded last capacity of the grid, and every scenario of its dictionary was built from
  these same inputs with only the PV capacity set, to the rounded capacity that is its key.
\<close>

theorem run_pv_sensitivity_mutates_inputs:
  assumes "run_pv_sensitivity npf_irr inputs pv_range = Inr (inputs', d)"
    and "pv_range \<noteq> []"
  shows "inputs' = inputs\<lparr>pv_capacity := real_of_int (py_round (last pv_range))\<rparr>
         \<and> (\<forall>(k, s) \<in> set d. \<exists>capacity \<in> set pv_range. k = py_round capacity
               \<and> Scenario_init npf_irr
                     (inputs\<lparr>pv_capacity := real_of_int (py_round capacity)\<rparr>) = Inr s)"
proof
  show "inputs' = inputs\<lparr>pv_capacity := real_of_int (py_round (last pv_range))\<rparr>"
    using run_pv_sensitivity_loop_inputs assms by (simp add: run_pv_sensitivity_def)
  show "\<forall>(k, s) \<in> set d. \<exists>capacity \<in> set pv_range. k = py_round capacity
            \<and> Scenario_init npf_irr
                  (inputs\<lparr>pv_capacity := real_of_int (py_round capacity)\<rparr>) = Inr s"
    using run_pv_sensitivity_loop_scenarios [of npf_irr inputs pv_range "[]" inputs' d] assms(1)
    by (auto simp: run_pv_sensitivity_def)
qed

theorem run_pv_sensitivity_mutates_inputs_witness:
  "\<exists>inputs' d.
      run_pv_sensitivity (\<lambda>cf. Inr NaN) (default_Inputs [3, 1] [1 / 1000, 2 / 1000])
        [1 / 2, 5 / 2, 7 / 2] = Inr (inputs', d)
      \<and> [1 / 2, 5 / 2, 7 / 2 :: real] \<noteq> []
      \<and> pv_capacity inputs' = 4
      \<and> inputs' = (default_Inputs [3, 1] [1 / 1000, 2 / 1000])\<lparr>pv_capacity := 4\<rparr>
      \<and> (\<forall>(k, s) \<in> set d. \<exists>capacity \<in> set [1 / 2, 5 / 2, 7 / 2]. k = py_round capacity
            \<and> Scenario_init (\<lambda>cf. Inr NaN)
                  ((default_Inputs [3, 1] [1 / 1000, 2 / 1000])
                     \<lparr>pv_capacity := real_of_int (py_round capacity)\<rparr>) = Inr s)"
proof -
  let ?inp = "default_Inputs [3, 1] [1 / 1000, 2 / 1000]"
  let ?irr = "\<lambda>cf :: fval list. Inr NaN :: error + fval"
  have built: "\<exists>s. Scenario_init ?irr (?inp\<lparr>pv_capacity := c\<rparr>) = Inr s" for c
    by (rule Scenario_init_Inr [where n = 25 and ld = "[3, 1]"])
       (simp_all add: default_Inputs_def)
  obtain s0 where s0: "Scenario_init ?irr (?inp\<lparr>pv_capacity := 0\<rparr>) = Inr s0"
    using built by blast
  obtain s2 where s2: "Scenario_init ?irr (?inp\<lparr>pv_capacity := 2\<rparr>) = Inr s2"
    using built by blast
  obtain s4 where s4: "Scenario_init ?irr (?inp\<lparr>pv_capacity := 4\<rparr>) = Inr s4"
    using built by blast
  have r: "py_round (1 / 2) = 0" "py_round (5 / 2) = 2" "py_round (7 / 2) = 4"
    by (simp_all add: py_round_def Let_def)
  have run: "run_pv_sensitivity ?irr ?inp [1 / 2, 5 / 2, 7 / 2]
               = Inr (?inp\<lparr>pv_capacity := 4\<rparr>, [(0, s0), (2, s2), (4, s4)])"
    using s0 s2 s4 by (simp add: run_pv_sensitivity_def r dict_set_def)
  show ?thesis
    using run_pv_sensitivity_mutates_inputs [OF run] run r by simp
qed

section \<open>Properties of degenerate inputs\<close>

lemma sum_enLoad_year:
  assumes "ref_specific_yield inp = Hourly sy" and "length sy = length ld"
  shows "sum_list (map enLoad (year_energy_balance inp ld y)) = sum_list ld"
proof -
  have "map enLoad (year_energy_balance inp ld y)
          = map fst (zip ld (map (\<lambda>v. v * capacity_dc_degr inp y) sy))"
    using assms
    by (simp add: year_energy_balance_def enPV_total_column_def balance_row_def Let_def
        case_prod_unfold o_def)
  also have "\<dots> = ld"
    using assms(2) by (simp add: map_fst_zip)
  finally show ?thesis by simp
qed

lemma foldl_plus_zero:
  "\<forall>x \<in> set xs. x = Fin 0 \<Longrightarrow> foldl (+) (Fin 0) xs = Fin 0"
  by (induction xs) auto

lemma series_sum_zero:
  assumes "\<forall>x \<in> set xs. zero_or_nan x"
  shows "series_sum xs = Fin 0"
  unfolding series_sum_def skipna_def
  by (rule foldl_plus_zero) (use assms in \<open>auto simp: zero_or_nan_def\<close>)

lemma divide_by_zero_not_finite: "\<not> is_finite (x / Fin 0 * Fin 1000)"
  by (cases x) auto

text \<open>A yearly energy that sums to zero in every year sums to zero in the discounted
  cashflow.\<close>

lemma zero_column_sum:
  assumes s: "Scenario_init npf_irr inp = Inr s" and ld: "load inp = Hourly ld"
    and cf: "(c, f) \<in> {(EnLoad, enLoad), (EnPV_total, enPV_total),
               (EnPV_self_cons, enPV_self_cons), (EnGrid_import, enGrid_import),
               (EnGrid_export, enGrid_export)}"
    and zero: "\<forall>y. sum_list (map f (year_energy_balance inp ld y)) = 0"
  shows "series_sum (column_values (discounted_cashflow s) c) = Fin 0"
proof -
  note d = Scenario_init_InrD [OF s]
  obtain n ld' where n: "study_period inp = PyInt n" "1 \<le> n" "load inp = Hourly ld'"
      "energy_balance s = map (\<lambda>year. (year, year_energy_balance inp ld' year)) [1..n]"
      "index (energy_balance_summary s) = [1..n]"
      "index (cashflow s) = [0..n]" "index (discounted_cashflow s) = [0..n]"
    using Scenario_init_years [OF s] by blast
  have ld': "ld' = ld"
    using n(3) ld by simp
  have c: "c \<in> {EnLoad, EnPV_total, EnPV_self_cons, EnGrid_import, EnGrid_export}"
    using cf by auto
  have ebs: "energy_balance_summary s
               = foldl energy_balance_summary_year [] (energy_balance s)"
    using d(2) by (auto simp: calc_energy_balance_summary_def split: if_splits)
  have "\<forall>(y, tbl) \<in> set (energy_balance s). sum_list (map f tbl) = 0"
    using zero by (auto simp: n(4) ld')
  then have e1: "zero_or_nan (loc (energy_balance_summary s) y c)" for y
    unfolding ebs by (intro ebs_zero [OF cf]) (simp_all add: loc_def zero_or_nan_def)
  have e2: "\<forall>y. zero_or_nan (loc (cashflow s) y c)"
    unfolding d(3) using cashflow_frame(2) [OF n(5) n(2) c, where inp = inp] e1 by simp
  have e3: "zero_or_nan (loc (discounted_cashflow s) y c)" for y
    unfolding d(4) using c by (intro discounted_zero [OF n(6) _ e2]) auto
  have "column_values (discounted_cashflow s) c
          = map (\<lambda>y. loc (discounted_cashflow s) y c) [0..n]"
    using column_values_loc [of "discounted_cashflow s" c] n(7) by simp
  then show ?thesis
    using e3 by (intro series_sum_zero) auto
qed

lemma zero_load_Blcoe:
  assumes s: "Scenario_init npf_irr inp = Inr s"
    and sy: "ref_specific_yield inp = Hourly sy" "length sy = length ld"
    and ld: "load inp = Hourly ld" "sum_list ld = 0"
  shows "\<not> is_finite (loc (data s) (pv_capacity inp) Blcoe)"
proof -
  have "series_sum (column_values (discounted_cashflow s) EnLoad) = Fin 0"
    by (rule zero_column_sum [OF s ld(1), where f = enLoad])
       (simp_all add: sum_enLoad_year [OF sy] ld(2))
  then have "\<not> is_finite (snd (calc_LCOE inp (discounted_cashflow s)))"
    by (simp add: calc_LCOE_def Let_def divide_by_zero_not_finite)
  then show ?thesis
    using calc_summary_cells(4) [OF Scenario_init_InrD(5) [OF s]] by simp
qed

text \<open>
  C7. A load that sums to zero is not raised. For inputs with hourly series whose load sums
  to zero, every scenario that the constructor builds has a summary row with a BLCOE that
  is not finite (an infinity or \<open>NaN\<close>): the division by the zero load is carried
  out, and no error stands in its place.
\<close>

theorem zero_load_blcoe_not_finite:
  assumes "load inp = Hourly ld" and "ref_specific_yield inp = Hourly sy"
    and "length sy = length ld" and "sum_list ld = 0"
    and "Scenario_init npf_irr inp = Inr s"
  shows "\<not> is_finite (loc (data s) (pv_capacity inp) Blcoe)"
  using zero_load_Blcoe [OF assms(5,2,3,1,4)] .

text \<open>Two hours with no load and a positive PV yield, two years. The cashflows are all
  negative, where the IRR routine finds no rate and returns nan: the constructor builds
  the scenario, with a BLCOE that is not finite.\<close>

theorem zero_load_blcoe_not_finite_witness:
  "load ((default_Inputs [0, 0] [1 / 1000, 1 / 500])\<lparr>study_period := PyInt 2\<rparr>)
     = Hourly [0, 0]
   \<and> ref_specific_yield ((default_Inputs [0, 0] [1 / 1000, 1 / 500])\<lparr>study_period := PyInt 2\<rparr>)
       = Hourly [1 / 1000, 1 / 500]
   \<and> length [1 / 1000, 1 / 500 :: real] = length [0, 0 :: real]
   \<and> sum_list [0, 0 :: real] = 0
   \<and> (\<exists>s. Scenario_init (\<lambda>cf. Inr NaN)
               ((default_Inputs [0, 0] [1 / 1000, 1 / 500])\<lparr>study_period := PyInt 2\<rparr>) = Inr s
          \<and> \<not> is_finite (loc (data s) 1000 Blcoe))"
proof -
  let ?inp = "(default_Inputs [0, 0] [1 / 1000, 1 / 500])\<lparr>study_period := PyInt 2\<rparr>"
  have h: "load ?inp = Hourly [0, 0]" "ref_specific_yield ?inp = Hourly [1 / 1000, 1 / 500]"
      "length [1 / 1000, 1 / 500 :: real] = length [0, 0 :: real]"
      "sum_list [0, 0 :: real] = 0"
    by (simp_all add: default_Inputs_def)
  have sp: "study_period ?inp = PyInt 2" and pv: "pv_capacity ?inp = 1000"
    by (simp_all add: default_Inputs_def)
  obtain s where s: "Scenario_init (\<lambda>cf. Inr NaN) ?inp = Inr s"
    using Scenario_init_Inr [OF sp _ h(1), of "\<lambda>cf. Inr NaN"] by auto
  have "\<not> is_finite (loc (data s) (pv_capacity ?inp) Blcoe)"
    by (rule zero_load_blcoe_not_finite [OF h s])
  then show ?thesis
    using h s pv by auto
qed

text \<open>An input with a load that sums to zero: one hour, one year. The constructor returns
  a scenario, and the BLCOE of its summary row is not finite.\<close>

theorem zero_load_is_not_raised:
  "\<not> isl (Scenario_init (\<lambda>cf. Inr NaN)
            ((default_Inputs [0] [1 / 1000])\<lparr>study_period := PyInt 1\<rparr>))
   \<and> \<not> is_finite
         (loc (data (projr (Scenario_init (\<lambda>cf. Inr NaN)
                       ((default_Inputs [0] [1 / 1000])\<lparr>study_period := PyInt 1\<rparr>))))
            1000 Blcoe)"
proof -
  let ?inp = "(default_Inputs [0] [1 / 1000])\<lparr>study_period := PyInt 1\<rparr>"
  have h: "study_period ?inp = PyInt 1" "load ?inp = Hourly [0]"
      "ref_specific_yield ?inp = Hourly [1 / 1000]" "pv_capacity ?inp = 1000"
    by (simp_all add: default_Inputs_def)
  obtain s where s: "Scenario_init (\<lambda>cf. Inr NaN) ?inp = Inr s"
    using Scenario_init_Inr [OF h(1) _ h(2), of "\<lambda>cf. Inr NaN"] by auto
  have "\<not> is_finite (loc (data s) (pv_capacity ?inp) Blcoe)"
    by (rule zero_load_Blcoe [OF s h(3) _ h(2)]) simp_all
  then show ?thesis
    using s h(4) by simp
qed

section \<open>Properties of the selection\<close>

lemma fval_less_total: "a \<noteq> NaN \<Longrightarrow> b \<noteq> NaN \<Longrightarrow> a < b \<or> a = b \<or> b < a" for a b :: fval
  by (cases a; cases b) auto

lemma fval_less_trans: "a < b \<Longrightarrow> b < c \<Longrightarrow> a < c" for a b c :: fval
  by (cases a; cases b; cases c) auto

lemma fval_less_irrefl: "\<not> a < a" for a :: fval
  by (cases a) auto

lemma fval_le_trans: "a \<le> b \<Longrightarrow> b \<le> c \<Longrightarrow> a \<le> c" for a b c :: fval
  using fval_less_trans by (auto simp: less_eq_fval_def)

lemma fval_le_refl: "a \<noteq> NaN \<Longrightarrow> a \<le> a" for a :: fval
  by (simp add: less_eq_fval_def)

lemma fval_not_less_le: "a \<noteq> NaN \<Longrightarrow> b \<noteq> NaN \<Longrightarrow> \<not> b < a \<Longrightarrow> a \<le> b" for a b :: fval
  using fval_less_total [of a b] by (auto simp: less_eq_fval_def)

lemma idxmax_fold:
  assumes "\<forall>(l, v) \<in> set ser. v \<noteq> NaN" and "snd b \<noteq> NaN"
  shows "\<exists>m. foldl (idx_step (\<lambda>v b. b < v)) (Some b) ser = Some m
           \<and> (m = b \<or> m \<in> set ser) \<and> snd b \<le> snd m
           \<and> (\<forall>(l, v) \<in> set ser. v \<le> snd m)"
  using assms
proof (induction ser arbitrary: b)
  case Nil
  then show ?case by (simp add: fval_le_refl)
next
  case (Cons x ser)
  have x: "snd x \<noteq> NaN"
    using Cons.prems(1) by auto
  let ?b = "if snd b < snd x then x else b"
  have step: "idx_step (\<lambda>v b. b < v) (Some b) x = Some ?b"
    using x by (simp add: idx_step_def)
  have nb: "snd ?b \<noteq> NaN"
    using x Cons.prems(2) by simp
  have le: "snd b \<le> snd ?b \<and> snd x \<le> snd ?b"
  proof (cases "snd b < snd x")
    case True
    then show ?thesis using x by (simp add: less_eq_fval_def)
  next
    case False
    then show ?thesis
      using fval_not_less_le [OF x Cons.prems(2)] fval_le_refl [OF Cons.prems(2)] by simp
  qed
  have "\<exists>m. foldl (idx_step (\<lambda>v b. b < v)) (Some ?b) ser = Some m
          \<and> (m = ?b \<or> m \<in> set ser) \<and> snd ?b \<le> snd m
          \<and> (\<forall>(l, v) \<in> set ser. v \<le> snd m)"
  proof (rule Cons.IH)
    show "\<forall>(l, v) \<in> set ser. v \<noteq> NaN"
      using Cons.prems(1) by simp
    show "snd ?b \<noteq> NaN"
      by (rule nb)
  qed
  then obtain m where m: "foldl (idx_step (\<lambda>v b. b < v)) (Some ?b) ser = Some m"
      "m = ?b \<or> m \<in> set ser" "snd ?b \<le> snd m" "\<forall>(l, v) \<in> set ser. v \<le> snd m"
    by blast
  have bm: "snd b \<le> snd m" and xm: "snd x \<le> snd m"
    using le m(3) fval_le_trans by blast+
  have fold: "foldl (idx_step (\<lambda>v b. b < v)) (Some b) (x # ser) = Some m"
    using m(1) step by simp
  have mem: "m = b \<or> m \<in> set (x # ser)"
    using m(2) by (auto split: if_splits)
  have all: "\<forall>(l, v) \<in> set (x # ser). v \<le> snd m"
    using m(4) xm by (cases x) auto
  show ?case
    using fold mem bm all by blast
qed

lemma idxmax_Some:
  assumes "\<forall>(l, v) \<in> set ser. v \<noteq> NaN" and "ser \<noteq> []"
  shows "\<exists>l v. idxmax ser = Some l \<and> (l, v) \<in> set ser \<and> (\<forall>(l', v') \<in> set ser. v' \<le> v)"
proof -
  obtain x xs where ser: "ser = x # xs"
    using assms(2) by (cases ser) auto
  have x: "snd x \<noteq> NaN"
    using assms(1) ser by auto
  obtain m where m: "foldl (idx_step (\<lambda>v b. b < v)) (Some x) xs = Some m"
      "m = x \<or> m \<in> set xs" "snd x \<le> snd m" "\<forall>(l, v) \<in> set xs. v \<le> snd m"
    using idxmax_fold [of xs x] assms(1) x ser by auto
  have "idxmax ser = Some (fst m)"
    using m(1) x by (simp add: idxmax_def ser idx_step_def)
  moreover have "(fst m, snd m) \<in> set ser"
    using m(2) ser by auto
  moreover have "\<forall>(l', v') \<in> set ser. v' \<le> snd m"
    using m(3,4) ser by auto
  ultimately show ?thesis by blast
qed

lemma find_key:
  "distinct (map fst xs) \<Longrightarrow> (k, s) \<in> set xs \<Longrightarrow>
     find (\<lambda>(k', s'). real_of_int k' = real_of_int k) xs = Some (k, s)"
  by (induction xs) (auto simp: rev_image_eqI)

lemma aggregate_npv:
  assumes "\<forall>(k, s) \<in> set all_scenario. index (data s) = [real_of_int k]"
  shows "map (\<lambda>(l, r). (l, r Npv)) (aggregate_data all_scenario)
           = map (\<lambda>(k, s). (real_of_int k, loc (data s) (real_of_int k) Npv)) all_scenario"
  using assms
proof (induction all_scenario)
  case Nil
  then show ?case by (simp add: aggregate_data_def)
next
  case (Cons a all_scenario)
  obtain k s where a: "a = (k, s)" by (cases a)
  have "index (data s) = [real_of_int k]"
    using Cons.prems a by simp
  then obtain r where r: "data s = [(real_of_int k, r)]"
    by (cases "data s") (auto simp: index_def)
  show ?case
    using Cons r by (simp add: a aggregate_data_def loc_def)
qed

text \<open>
  C4. The best scenario. In a sweep that is not empty, each summary being the one row of
  its capacity with an NPV that is a number, and the NPVs pairwise distinct, the scenario
  selected is a scenario of the sweep whose NPV is strictly greater than the NPV of every
  other one: negative NPVs are not filtered out.
\<close>

theorem highest_npv_is_argmax:
  assumes "all_scenario \<noteq> []" and "distinct (map fst all_scenario)"
    and "\<forall>(k, s) \<in> set all_scenario.
           index (data s) = [real_of_int k] \<and> loc (data s) (real_of_int k) Npv \<noteq> NaN"
    and "distinct (map (\<lambda>(k, s). loc (data s) (real_of_int k) Npv) all_scenario)"
  shows "\<exists>k s. highest_npv (aggregate_data all_scenario) all_scenario = Inr s
           \<and> (k, s) \<in> set all_scenario
           \<and> (\<forall>(k', s') \<in> set all_scenario. (k', s') \<noteq> (k, s) \<longrightarrow>
                 loc (data s') (real_of_int k') Npv < loc (data s) (real_of_int k) Npv)"
proof -
  let ?npv = "\<lambda>(k, s). loc (data s) (real_of_int k) Npv"
  let ?ser = "map (\<lambda>(k, s). (real_of_int k, ?npv (k, s))) all_scenario"
  have ser: "map (\<lambda>(l, r). (l, r Npv)) (aggregate_data all_scenario) = ?ser"
    using aggregate_npv [of all_scenario] assms(3) by auto
  have ne: "aggregate_data all_scenario \<noteq> []"
    using ser assms(1) by auto
  have "\<forall>(l, v) \<in> set ?ser. v \<noteq> NaN"
    using assms(3) by auto
  moreover have "?ser \<noteq> []"
    using assms(1) by simp
  ultimately have "\<exists>l v. idxmax ?ser = Some l \<and> (l, v) \<in> set ?ser
                     \<and> (\<forall>(l', v') \<in> set ?ser. v' \<le> v)"
    by (rule idxmax_Some)
  then obtain l v where lv: "idxmax ?ser = Some l" "(l, v) \<in> set ?ser"
      "\<forall>(l', v') \<in> set ?ser. v' \<le> v"
    by blast
  obtain k s where ks: "(k, s) \<in> set all_scenario" "l = real_of_int k" "v = ?npv (k, s)"
    using lv(2) by auto
  have found: "find (\<lambda>(k', s'). real_of_int k' = l) all_scenario = Some (k, s)"
    using find_key [OF assms(2) ks(1)] ks(2) by simp
  have best: "highest_npv (aggregate_data all_scenario) all_scenario = Inr s"
    using ne lv(1) found by (simp add: highest_npv_def ser)
  have "?npv (k', s') < ?npv (k, s)" if "(k', s') \<in> set all_scenario" "(k', s') \<noteq> (k, s)" for k' s'
  proof -
    have "?npv (k', s') \<le> v"
      using lv(3) that(1) by auto
    moreover have "?npv (k', s') \<noteq> ?npv (k, s)"
      using assms(4) that ks(1) by (metis (mono_tags, lifting) distinct_map inj_onD)
    ultimately show ?thesis
      using ks(3) by (auto simp: less_eq_fval_def)
  qed
  then have "\<forall>(k', s') \<in> set all_scenario. (k', s') \<noteq> (k, s) \<longrightarrow>
               loc (data s') (real_of_int k') Npv < loc (data s) (real_of_int k) Npv"
    by auto
  then show ?thesis
    using best ks(1) by blast
qed

lemma synthetic_Scenario_simps:
  "data (synthetic_Scenario c v) = [(c, empty_row(Npv := v))]"
  "pv_capacity (synthetic_Scenario c v) = c"
  by (simp_all add: synthetic_Scenario_def Inputs.defs Scenario.defs default_Inputs_def)

text \<open>The three scenarios with the NPVs 100, 500 and -50 at the capacities 1000, 2000 and
  3000: the best one has the capacity 2000.\<close>

theorem highest_npv_is_argmax_witness:
  "[(1000 :: int, synthetic_Scenario 1000 (Fin 100)),
    (2000, synthetic_Scenario 2000 (Fin 500)),
    (3000, synthetic_Scenario 3000 (Fin (- 50)))] \<noteq> []
   \<and> distinct (map fst
        [(1000 :: int, synthetic_Scenario 1000 (Fin 100)),
         (2000, synthetic_Scenario 2000 (Fin 500)),
         (3000, synthetic_Scenario 3000 (Fin (- 50)))])
   \<and> index (data (synthetic_Scenario 1000 (Fin 100))) = [real_of_int 1000]
   \<and> loc (data (synthetic_Scenario 1000 (Fin 100))) (real_of_int 1000) Npv \<noteq> NaN
   \<and> index (data (synthetic_Scenario 2000 (Fin 500))) = [real_of_int 2000]
   \<and> loc (data (synthetic_Scenario 2000 (Fin 500))) (real_of_int 2000) Npv \<noteq> NaN
   \<and> index (data (synthetic_Scenario 3000 (Fin (- 50)))) = [real_of_int 3000]
   \<and> loc (data (synthetic_Scenario 3000 (Fin (- 50)))) (real_of_int 3000) Npv \<noteq> NaN
   \<and> distinct (map (\<lambda>(k, s). loc (data s) (real_of_int k) Npv)
        [(1000, synthetic_Scenario 1000 (Fin 100)), (2000, synthetic_Scenario 2000 (Fin 500)),
         (3000, synthetic_Scenario 3000 (Fin (- 50)))])
   \<and> (\<exists>s. highest_npv
          (aggregate_data
             [(1000, synthetic_Scenario 1000 (Fin 100)),
              (2000, synthetic_Scenario 2000 (Fin 500)),
              (3000, synthetic_Scenario 3000 (Fin (- 50)))])
          [(1000, synthetic_Scenario 1000 (Fin 100)), (2000, synthetic_Scenario 2000 (Fin 500)),
           (3000, synthetic_Scenario 3000 (Fin (- 50)))] = Inr s
        \<and> pv_capacity s = 2000)"
proof -
  let ?d = "[(1000 :: int, synthetic_Scenario 1000 (Fin 100)),
             (2000, synthetic_Scenario 2000 (Fin 500)),
             (3000, synthetic_Scenario 3000 (Fin (- 50)))]"
  have h1: "?d \<noteq> []" and h2: "distinct (map fst ?d)"
    by simp_all
  have h3: "\<forall>(k, s) \<in> set ?d.
              index (data s) = [real_of_int k] \<and> loc (data s) (real_of_int k) Npv \<noteq> NaN"
    by (simp add: synthetic_Scenario_simps index_def loc_def)
  have h4: "distinct (map (\<lambda>(k, s). loc (data s) (real_of_int k) Npv) ?d)"
    by (simp add: synthetic_Scenario_simps loc_def)
  obtain k s where ks: "highest_npv (aggregate_data ?d) ?d = Inr s" "(k, s) \<in> set ?d"
      "\<forall>(k', s') \<in> set ?d. (k', s') \<noteq> (k, s) \<longrightarrow>
          loc (data s') (real_of_int k') Npv < loc (data s) (real_of_int k) Npv"
    using highest_npv_is_argmax [OF h1 h2 h3 h4] by blast
  have "k = 2000 \<and> s = synthetic_Scenario 2000 (Fin 500)"
    using ks(2,3) by (auto simp: synthetic_Scenario_simps loc_def)
  then show ?thesis
    using ks(1) h1 h2 h3 h4 by (simp add: synthetic_Scenario_simps)
qed

section \<open>Properties of the payback period\<close>

lemma dropWhile_append_stop:
  "\<not> P y \<Longrightarrow> dropWhile P (xs @ y # r) = dropWhile P xs @ y # r"
  by (induction xs) auto

lemma takeWhile_append_stop:
  "\<not> P y \<Longrightarrow> takeWhile P (xs @ y # r) = takeWhile P xs"
  by (induction xs) auto

lemma length_upt_one: "length [1..<k + 1] = k"
  by (metis length_upt add_diff_cancel_right')

lemma line_below_zero:
  assumes "a < 0" and "b \<le> 0" and "0 \<le> t" and "t < 1"
  shows "a + (b - a) * t < (0::real)"
proof -
  have "a + (b - a) * t = a * (1 - t) + b * t"
    by (simp add: algebra_simps)
  moreover have "a * (1 - t) < 0"
    using assms(1,4) by (simp add: mult_neg_pos)
  moreover have "b * t \<le> 0"
    using assms(2,3) by (simp add: mult_nonpos_nonneg)
  ultimately show ?thesis by simp
qed

lemma interpolate_from_prefix:
  assumes "ys = xs @ Fin 0 # rest"
    and "\<forall>x \<in> set xs. below_zero x"
    and "case prev of None \<Rightarrow> True | Some a \<Rightarrow> \<exists>w < 0. a = Fin w"
  shows "\<exists>ws. interpolate_from prev ys = ws @ Fin 0 # interpolate_from (Some (Fin 0)) rest
           \<and> length ws = length xs \<and> (\<forall>w \<in> set ws. below_zero w)"
  using assms
proof (induction prev ys arbitrary: xs rule: interpolate_from.induct)
  case (1 prev)
  then show ?case by simp
next
  case (2 prev x ys')
  show ?case
  proof (cases xs)
    case Nil
    then have "x = Fin 0" "ys' = rest"
      using "2.prems"(1) by simp_all
    then show ?thesis
      using Nil by simp
  next
    case (Cons x' xs')
    then have x: "x' = x" and ys': "ys' = xs' @ Fin 0 # rest"
      using "2.prems"(1) by simp_all
    show ?thesis
    proof (cases "x = NaN")
      case False
      then obtain w where w: "w < 0" "x = Fin w"
        using "2.prems"(2) Cons x by (auto simp: below_zero_def)
      have "\<exists>ws. interpolate_from (Some x) ys'
                   = ws @ Fin 0 # interpolate_from (Some (Fin 0)) rest
                 \<and> length ws = length xs' \<and> (\<forall>w \<in> set ws. below_zero w)"
        using "2.IH"(1) [OF False ys'] "2.prems"(2) Cons w by simp
      then obtain ws where ws: "interpolate_from (Some x) ys'
                   = ws @ Fin 0 # interpolate_from (Some (Fin 0)) rest"
          "length ws = length xs'" "\<forall>w \<in> set ws. below_zero w"
        by blast
      have "interpolate_from prev (x # ys')
              = (x # ws) @ Fin 0 # interpolate_from (Some (Fin 0)) rest"
        using False ws(1) by simp
      moreover have "length (x # ws) = length xs"
        using ws(2) Cons by simp
      moreover have "\<forall>w \<in> set (x # ws). below_zero w"
        using ws(3) w by (auto simp: below_zero_def)
      ultimately show ?thesis by blast
    next
      case True
      let ?nan = "\<lambda>v. v = NaN"
      let ?gap = "takeWhile ?nan (x # ys')"
      let ?rest = "dropWhile ?nan (x # ys')"
      have all: "x # ys' = xs @ Fin 0 # rest"
        using "2.prems"(1) .
      have gap: "?gap = takeWhile ?nan xs"
        unfolding all by (rule takeWhile_append_stop) simp
      have rest: "?rest = dropWhile ?nan xs @ Fin 0 # rest"
        unfolding all by (rule dropWhile_append_stop) simp
      have below: "\<forall>x \<in> set (dropWhile ?nan xs). below_zero x"
        using "2.prems"(2) by (meson set_dropWhileD)
      have "\<exists>ws. interpolate_from prev ?rest
                   = ws @ Fin 0 # interpolate_from (Some (Fin 0)) rest
                 \<and> length ws = length (dropWhile ?nan xs) \<and> (\<forall>w \<in> set ws. below_zero w)"
        using "2.IH"(2) [OF _ refl refl rest below "2.prems"(3)] True by simp
      then obtain ws where ws: "interpolate_from prev ?rest
                   = ws @ Fin 0 # interpolate_from (Some (Fin 0)) rest"
          "length ws = length (dropWhile ?nan xs)" "\<forall>w \<in> set ws. below_zero w"
        by blast
      define filled where "filled =
        (case prev of
           None \<Rightarrow> map (\<lambda>_. NaN) ?gap
         | Some a \<Rightarrow>
             (case ?rest of
                [] \<Rightarrow> map (\<lambda>_. a) ?gap
              | b # _ \<Rightarrow> map (\<lambda>i. a + (b - a) * Fin (real i / real (length ?gap + 1)))
                          [1..<length ?gap + 1]))"
      have eq: "interpolate_from prev (x # ys') = filled @ interpolate_from prev ?rest"
        unfolding filled_def True by (simp add: Let_def del: takeWhile.simps dropWhile.simps)
      have len: "length filled = length ?gap"
      proof -
        have "length [1..<length ?gap + 1] = length ?gap"
          by (rule length_upt_one)
        then show ?thesis
          unfolding filled_def
          by (cases prev; cases ?rest)
             (simp_all only: option.case list.case length_map)
      qed
      have fill: "\<forall>w \<in> set filled. below_zero w"
      proof (cases prev)
        case None
        then show ?thesis by (auto simp: filled_def below_zero_def)
      next
        case (Some a)
        then obtain wa where wa: "wa < 0" "a = Fin wa"
          using "2.prems"(3) by auto
        obtain b r where b: "?rest = b # r"
          using rest by (cases "dropWhile ?nan xs") auto
        have "b \<noteq> NaN"
          using b by (metis (mono_tags, lifting) hd_dropWhile list.sel(1) list.distinct(1))
        moreover have "below_zero b \<or> b = Fin 0"
          using b rest below by (cases "dropWhile ?nan xs") auto
        ultimately obtain wb where wb: "wb \<le> 0" "b = Fin wb"
          by (auto simp: below_zero_def)
        define k where "k = length ?gap"
        have "below_zero (a + (b - a) * Fin (real i / real (k + 1)))"
          if "i \<in> set [1..<k + 1]" for i
        proof -
          have "i < k + 1"
            using that by (simp only: set_upt atLeastLessThan_iff)
          then have "0 \<le> real i / real (k + 1)" "real i / real (k + 1) < 1"
            by simp_all
          then have "wa + (wb - wa) * (real i / real (k + 1)) < 0"
            using line_below_zero [OF wa(1) wb(1)] by blast
          then show ?thesis
            by (simp add: wa wb below_zero_def minus_fval_def)
        qed
        then have "\<forall>w \<in> set (map (\<lambda>i. a + (b - a) * Fin (real i / real (k + 1)))
                                [1..<k + 1]). below_zero w"
          by (simp only: set_map ball_simps) blast
        then show ?thesis
          unfolding filled_def Some b k_def by (simp only: option.case list.case)
      qed
      have "interpolate_from prev (x # ys')
              = (filled @ ws) @ Fin 0 # interpolate_from (Some (Fin 0)) rest"
        using eq ws(1) by simp
      moreover have "length (filled @ ws) = length xs"
      proof -
        have "length (filled @ ws)
                = length (takeWhile ?nan xs @ dropWhile ?nan xs)"
          by (simp only: length_append len ws(2) gap)
        then show ?thesis
          by (simp only: takeWhile_dropWhile_id)
      qed
      moreover have "\<forall>w \<in> set (filled @ ws). below_zero w"
        using fill ws(3) by auto
      ultimately show ?thesis by blast
    qed
  qed
qed

lemma py_round_le: "x \<le> real_of_int k \<Longrightarrow> py_round x \<le> k"
proof -
  assume x: "x \<le> real_of_int k"
  then have f: "\<lfloor>x\<rfloor> \<le> k"
    by (simp add: floor_le_iff)
  show ?thesis
  proof (cases "\<lfloor>x\<rfloor> = k")
    case True
    then have "x - real_of_int \<lfloor>x\<rfloor> \<le> 0"
      using x by simp
    then show ?thesis
      using True by (simp add: py_round_def Let_def)
  next
    case False
    then have "\<lfloor>x\<rfloor> + 1 \<le> k"
      using f by simp
    then show ?thesis
      using f by (simp add: py_round_def Let_def)
  qed
qed

lemma abs_not_less_zero: "\<not> \<bar>v\<bar> < Fin 0" for v :: fval
  by (cases v) auto

lemma abs_below_zero: "below_zero v \<Longrightarrow> \<bar>v\<bar> = NaN \<or> Fin 0 < \<bar>v\<bar>"
  by (auto simp: below_zero_def)

lemma idxmin_fold_stays:
  assumes "\<forall>(l, v) \<in> set ser. \<not> v < Fin 0"
  shows "foldl (idx_step (\<lambda>v b. v < b)) (Some (l0, Fin 0)) ser = Some (l0, Fin 0)"
  using assms by (induction ser) (auto simp: idx_step_def)

lemma idxmin_fold_positive:
  assumes "\<forall>(l, v) \<in> set ser. v = NaN \<or> Fin 0 < v"
    and "case best of None \<Rightarrow> True | Some (l, v) \<Rightarrow> Fin 0 < v"
  shows "case foldl (idx_step (\<lambda>v b. v < b)) best ser of
           None \<Rightarrow> True | Some (l, v) \<Rightarrow> Fin 0 < v"
  using assms
proof (induction ser arbitrary: best)
  case Nil
  then show ?case by simp
next
  case (Cons x ser)
  have "case idx_step (\<lambda>v b. v < b) best x of None \<Rightarrow> True | Some (l, v) \<Rightarrow> Fin 0 < v"
    using Cons.prems by (cases x) (auto simp: idx_step_def split: option.splits)
  then show ?case
    using Cons.IH [of "idx_step (\<lambda>v b. v < b) best x"] Cons.prems(1) by simp
qed

lemma idxmin_first_zero:
  assumes "\<forall>(l, v) \<in> set pre. v = NaN \<or> Fin 0 < v"
    and "\<forall>(l, v) \<in> set post. \<not> v < Fin 0"
  shows "idxmin (pre @ (l0, Fin 0) # post) = Some l0"
proof -
  let ?step = "idx_step (\<lambda>v b. v < b)"
  have pos: "case foldl ?step None pre of None \<Rightarrow> True | Some (l, v) \<Rightarrow> Fin 0 < v"
    by (rule idxmin_fold_positive [OF assms(1)]) simp
  have "?step (foldl ?step None pre) (l0, Fin 0) = Some (l0, Fin 0)"
    using pos by (auto simp: idx_step_def split: option.splits)
  then have "foldl ?step None (pre @ (l0, Fin 0) # post) = Some (l0, Fin 0)"
    using idxmin_fold_stays [OF assms(2)] by simp
  then show ?thesis
    by (simp add: idxmin_def)
qed

lemma linspace_25: "linspace 1 25 2500
    = Inr (map (\<lambda>i. if i = 2499 then 25 else 1 + real i * (24 / 2499)) [0..<2500])"
  by (simp add: linspace_def Let_def del: upt_Suc upt_rec_numeral)

lemma label_25_before: "i < 937 \<Longrightarrow> label_25 i \<le> 999 / 100"
proof -
  assume i: "i < 937"
  then have "real i \<le> 936"
    by simp
  then have "(1 + real i * (24 / 2499)) * 10 ^ 2 \<le> real_of_int 999"
    by simp
  then have "py_round ((1 + real i * (24 / 2499)) * 10 ^ 2) \<le> 999"
    by (rule py_round_le)
  then have "real_of_int (py_round ((1 + real i * (24 / 2499)) * 10 ^ 2)) \<le> 999"
    by simp
  then show ?thesis
    using i by (simp add: label_25_def round_to_def)
qed

lemma label_25_at: "label_25 937 = 10"
  by (simp add: label_25_def round_to_def py_round_def Let_def)

lemma balance_at_cases:
  "balance_at l = NaN
   \<or> (\<exists>k. 0 \<le> k \<and> k \<le> 25 \<and> real_of_int k = l
            \<and> balance_at l = Fin (- 1000 + 100 * real_of_int k))"
proof (cases "find (\<lambda>(k, v). real_of_int k = l) synthetic_balance")
  case None
  then show ?thesis by (simp add: balance_at_def)
next
  case (Some kv)
  then have "kv \<in> set synthetic_balance" and "real_of_int (fst kv) = l"
    by (auto simp: find_Some_iff case_prod_unfold)
  then show ?thesis
    using Some by (auto simp: balance_at_def synthetic_balance_def)
qed

lemma balance_at_10: "balance_at 10 = Fin 0"
proof -
  have "(10, Fin 0) \<in> set synthetic_balance"
    by (auto simp: synthetic_balance_def)
  moreover have "distinct (map fst synthetic_balance)"
    by (simp add: synthetic_balance_def o_def)
  ultimately have "find (\<lambda>(k', s'). real_of_int k' = real_of_int 10) synthetic_balance
                     = Some (10, Fin 0)"
    by (rule find_key [rotated])
  then show ?thesis
    by (simp add: balance_at_def)
qed

lemma balance_at_before:
  assumes "i < 937"
  shows "below_zero (balance_at (label_25 i))"
  using balance_at_cases [of "label_25 i"] label_25_before [OF assms]
  by (auto simp: below_zero_def)

lemma upt_split_937: "[0..<2500] = [0..<937] @ 937 # [938..<2500]"
proof -
  have "[0..<2500] = [0..<937] @ [937..<2500]"
    using upt_add_eq_append [of 0 937 1563] by (simp del: upt_Suc upt_rec_numeral)
  moreover have "[937..<2500] = 937 # [938..<2500]"
    by (simp add: upt_conv_Cons del: upt_Suc upt_rec_numeral)
  ultimately show ?thesis by simp
qed

text \<open>The nearest-to-zero label when the first zero of the interpolated balance is known.\<close>

lemma pay_back_period_at_zero:
  assumes "\<forall>l \<in> set L1. below_zero (balance_at l)" and "balance_at l0 = Fin 0"
  shows "idxmin (map (\<lambda>(l, v). (l, \<bar>v\<bar>))
                  (interpolate (reindex synthetic_balance (L1 @ l0 # L2)))) = Some l0"
proof -
  let ?V1 = "map balance_at L1" and ?V2 = "map balance_at L2"
  have re: "reindex synthetic_balance (L1 @ l0 # L2)
              = map (\<lambda>l. (l, balance_at l)) (L1 @ l0 # L2)"
    by (simp add: reindex_def balance_at_def [abs_def])
  have fsts: "map fst (reindex synthetic_balance (L1 @ l0 # L2)) = L1 @ l0 # L2"
    unfolding re by (simp add: o_def)
  have snds: "map snd (reindex synthetic_balance (L1 @ l0 # L2)) = ?V1 @ Fin 0 # ?V2"
    unfolding re by (simp add: o_def assms(2))
  have "\<forall>x \<in> set ?V1. below_zero x"
    using assms(1) by auto
  then have "\<exists>ws. interpolate_from None (?V1 @ Fin 0 # ?V2)
                 = ws @ Fin 0 # interpolate_from (Some (Fin 0)) ?V2
               \<and> length ws = length ?V1 \<and> (\<forall>w \<in> set ws. below_zero w)"
    by (intro interpolate_from_prefix) simp_all
  then obtain ws where ws: "interpolate_from None (?V1 @ Fin 0 # ?V2)
                 = ws @ Fin 0 # interpolate_from (Some (Fin 0)) ?V2"
      "length ws = length ?V1" "\<forall>w \<in> set ws. below_zero w"
    by blast
  let ?W2 = "interpolate_from (Some (Fin 0)) ?V2"
  have len: "length L1 = length ws"
    using ws(2) by simp
  have interp: "interpolate (reindex synthetic_balance (L1 @ l0 # L2))
                  = zip L1 ws @ (l0, Fin 0) # zip L2 ?W2"
    unfolding interpolate_def fsts snds ws(1) using len by (simp only: zip_append zip_Cons_Cons)
  have abs: "map (\<lambda>(l, v). (l, \<bar>v\<bar>)) (zip L1 ws @ (l0, Fin 0) # zip L2 ?W2)
               = map (\<lambda>(l, v). (l, \<bar>v\<bar>)) (zip L1 ws) @ (l0, Fin 0)
                 # map (\<lambda>(l, v). (l, \<bar>v\<bar>)) (zip L2 ?W2)"
    by simp
  have pre: "\<forall>(l, v) \<in> set (map (\<lambda>(l, v). (l, \<bar>v\<bar>)) (zip L1 ws)). v = NaN \<or> Fin 0 < v"
    using ws(3) abs_below_zero by (auto dest!: set_zip_rightD)
  have post: "\<forall>(l, v) \<in> set (map (\<lambda>(l, v). (l, \<bar>v\<bar>)) (zip L2 ?W2)). \<not> v < Fin 0"
    using abs_not_less_zero by auto
  show ?thesis
    unfolding interp abs by (rule idxmin_first_zero [OF pre post])
qed

lemma labels_25:
  "map (round_to 2)
     (map (\<lambda>i. if i = 2499 then 25 else 1 + real i * (24 / 2499)) [0..<2500])
   = map label_25 [0..<937] @ 10 # map label_25 [938..<2500]"
proof -
  have "map (round_to 2)
          (map (\<lambda>i. if i = 2499 then 25 else 1 + real i * (24 / 2499)) [0..<2500])
        = map label_25 [0..<2500]"
    by (simp only: map_map o_def label_25_def [abs_def])
  also have "\<dots> = map label_25 [0..<937] @ label_25 937 # map label_25 [938..<2500]"
    by (simp only: upt_split_937 map_append list.map)
  finally show ?thesis
    by (simp only: label_25_at)
qed

text \<open>
  C3. The payback period of the synthetic balance. For the cash balance \<open>-1000\<close> in year
  0 that grows by 100 a year up to year 25, the estimator returns 10 years exactly, within
  0.05 of 10.
\<close>

theorem pay_back_period_example:
  "\<exists>p. calc_pay_back_period 25 synthetic_balance = Inr (Fin p) \<and> \<bar>p - 10\<bar> \<le> 0.05"
proof -
  have "\<forall>l \<in> set (map label_25 [0..<937]). below_zero (balance_at l)"
    using balance_at_before by (simp only: set_map set_upt) auto
  then have "idxmin (map (\<lambda>(l, v). (l, \<bar>v\<bar>))
               (interpolate (reindex synthetic_balance
                  (map label_25 [0..<937] @ 10 # map label_25 [938..<2500])))) = Some 10"
    using balance_at_10 by (rule pay_back_period_at_zero)
  moreover have "linspace 1 (real_of_int 25) (25 * 100)
      = Inr (map (\<lambda>i. if i = 2499 then 25 else 1 + real i * (24 / 2499)) [0..<2500])"
    using linspace_25 by (simp del: upt_Suc upt_rec_numeral)
  ultimately have "calc_pay_back_period 25 synthetic_balance = Inr (Fin 10)"
    unfolding calc_pay_back_period_def
    by (simp only: sum.case Let_def labels_25 option.case)
  then show ?thesis by simp
qed

end
